theory Spec2Isabelle
  imports Complex_Main "HOL-Library.Log_Nat"
begin

section \<open>Balance formatting and polling of the signed-in screen\<close>

text \<open>
  The development embeds \<^verbatim>\<open>src/components/SignedInScreen.tsx\<close>: the two balance
  hooks \<^verbatim>\<open>useEvmBalance\<close> and \<^verbatim>\<open>useSolanaBalance\<close>, the formatter
  \<^verbatim>\<open>formatSol\<close>, and the composition of four hook instances in
  \<^verbatim>\<open>SignedInScreen\<close>.
\<close>

subsection \<open>Decimal strings\<close>

text \<open>
  The digits of a non-negative integer, most significant first and without leading zeros, as \<^verbatim>\<open>BigInt.prototype.toString\<close> and the digit step of
  \<^verbatim>\<open>Number.prototype.toFixed\<close> produce them.
\<close>

definition digit_char :: "nat \<Rightarrow> char" where
  "digit_char d = ''0123456789'' ! (d mod 10)"

function digits :: "int \<Rightarrow> string" where
  "digits n =
     (if n < 10 then [digit_char (nat n)] else digits (n div 10) @ [digit_char (nat (n mod 10))])"
  by pat_completeness auto
termination
  by (relation "measure nat") auto

declare digits.simps [simp del]

text \<open>Reading a decimal string back: the yardstick the formatters are measured with.\<close>

definition is_digit :: "char \<Rightarrow> bool" where
  "is_digit c = (c \<in> set ''0123456789'')"

definition digit_val :: "char \<Rightarrow> int" where
  "digit_val c = of_char c - 48"

definition int_of_digits :: "string \<Rightarrow> int" where
  "int_of_digits s = foldl (\<lambda>a c. 10 * a + digit_val c) 0 s"

text \<open>
  \<open>decimal_value s\<close> is the number a string of the shape \<^verbatim>\<open>d+\<close> or
  \<^verbatim>\<open>d+.d+\<close> denotes; every other string (a bare trailing point, a sign, an
  exponent) denotes nothing.
\<close>

definition decimal_value :: "string \<Rightarrow> rat option" where
  "decimal_value s =
     (let ip = takeWhile is_digit s; r = dropWhile is_digit s
      in if ip = [] then None
         else if r = [] then Some (of_int (int_of_digits ip))
         else if hd r = CHR ''.'' \<and> tl r \<noteq> [] \<and> list_all is_digit (tl r)
              then Some (of_int (int_of_digits ip)
                         + of_int (int_of_digits (tl r)) / 10 ^ length (tl r))
              else None)"

text \<open>What follows the first point of a string, and how many characters that is.\<close>

definition fraction_part :: "string \<Rightarrow> string" where
  "fraction_part s = drop 1 (dropWhile (\<lambda>c. c \<noteq> CHR ''.'') s)"

definition fraction_digits :: "string \<Rightarrow> nat" where
  "fraction_digits s = length (fraction_part s)"

subsection \<open>JavaScript numbers\<close>

text \<open>
  A finite \<^verbatim>\<open>number\<close> is modelled by the rational it denotes. The arithmetic of
  the language rounds every result to the nearest binary64 value, ties to the even
  significand; \<open>fl64\<close> is that rounding (53 significant bits, subnormals below
  \<open>2 powi -1022\<close>). Overflow to \<^verbatim>\<open>Infinity\<close> is outside the model: the
  quotient of a finite number by \<open>10 ^ 9\<close> never overflows.
\<close>

definition round_half_even :: "rat \<Rightarrow> int" where
  "round_half_even r =
     (let f = \<lfloor>r\<rfloor>; d = r - of_int f
      in if d < 1 / 2 then f else if 1 / 2 < d then f + 1 else if even f then f else f + 1)"

definition ilog2 :: "rat \<Rightarrow> int" where
  "ilog2 q =
     (let a = fst (quotient_of q); b = snd (quotient_of q); k = bitlen a - bitlen b
      in if 2 powi k \<le> q then k else k - 1)"

definition ulp64 :: "rat \<Rightarrow> rat" where
  "ulp64 q = 2 powi (max (ilog2 q) (- 1022) - 52)"

definition fl64 :: "rat \<Rightarrow> rat" where
  "fl64 q =
     (if q = 0 then 0
      else if q < 0 then - (of_int (round_half_even (- q / ulp64 (- q))) * ulp64 (- q))
      else of_int (round_half_even (q / ulp64 q)) * ulp64 q)"

text \<open>\<^verbatim>\<open>Number(balance)\<close> for a \<^verbatim>\<open>bigint\<close>, and the operator \<^verbatim>\<open>/\<close>.\<close>

definition Number :: "int \<Rightarrow> rat" where
  "Number b = fl64 (of_int b)"

definition number_div :: "rat \<Rightarrow> rat \<Rightarrow> rat" where
  "number_div x y = fl64 (x / y)"

text \<open>
  \<^verbatim>\<open>Number.prototype.toFixed(f)\<close> for \<open>f\<close> between 0 and 100. From \<open>10 ^ 21\<close>
  on, the language falls back to \<^verbatim>\<open>Number::toString\<close> (exponent notation);
  that rendering is the parameter \<open>ToString\<close>. Below, \<open>n\<close> is the integer for which
  \<open>n / 10 ^ f\<close> is nearest to \<open>x\<close>, the larger one of two.
\<close>

definition toFixed :: "(rat \<Rightarrow> string) \<Rightarrow> rat \<Rightarrow> nat \<Rightarrow> string" where
  "toFixed ToString x0 f =
     (let s = (if x0 < 0 then ''-'' else '''');
          x = (if x0 < 0 then - x0 else x0);
          m = (if 10 ^ 21 \<le> x then ToString x
               else let n = \<lfloor>x * 10 ^ f + 1 / 2\<rfloor>;
                        m = digits n
                    in if f \<noteq> 0
                       then let k = length m;
                                m = (if k \<le> f then replicate (f + 1 - k) CHR ''0'' @ m else m);
                                k = (if k \<le> f then f + 1 else k)
                            in take (k - f) m @ ''.'' @ drop (k - f) m
                       else m)
      in s @ m)"

text \<open>
  The two replacements of \<^verbatim>\<open>formatSol\<close>: \<^verbatim>\<open>replace(/0+$/, "")\<close> removes the
  run of zeros at the end of the string, \<^verbatim>\<open>replace(/\.$/, "")\<close> a point at the end.
\<close>

definition replace_trailing_zeros :: "string \<Rightarrow> string" where
  "replace_trailing_zeros s = rev (dropWhile (\<lambda>c. c = CHR ''0'') (rev s))"

definition replace_trailing_dot :: "string \<Rightarrow> string" where
  "replace_trailing_dot s = (if s \<noteq> [] \<and> last s = CHR ''.'' then butlast s else s)"

subsection \<open>The formatters\<close>

text \<open>
  Modelled from the spec: the constant \<^verbatim>\<open>LAMPORTS_PER_SOL\<close> of the Solana
  library, the unit-scaling factor \<^verbatim>\<open>1e9\<close> of this chain family.
\<close>

definition LAMPORTS_PER_SOL :: rat where
  "LAMPORTS_PER_SOL = 1000000000"

definition formatSol :: "(rat \<Rightarrow> string) \<Rightarrow> rat \<Rightarrow> string" where
  "formatSol ToString lamports =
     (let maxDecimalPlaces = 9;
          roundedStr = toFixed ToString (number_div lamports LAMPORTS_PER_SOL) maxDecimalPlaces
      in replace_trailing_dot (replace_trailing_zeros roundedStr))"

text \<open>
  Modelled from the spec: \<^verbatim>\<open>formatEther\<close> of the EVM client library, which is not
  part of the repository: the fixed-point-to-decimal-string conversion with 18 decimal
  places. The digits of the balance are padded on the left to 18, split 18 from the
  end, and the fraction is written without its trailing zeros, with no point when it
  is empty.
\<close>

definition formatEther :: "int \<Rightarrow> string" where
  "formatEther wei =
     (let decimals = 18;
          negative = (wei < 0);
          display = digits \<bar>wei\<bar>;
          display = replicate (decimals - length display) CHR ''0'' @ display;
          integer = take (length display - decimals) display;
          fraction = replace_trailing_zeros (drop (length display - decimals) display)
      in (if negative then ''-'' else '''')
         @ (if integer = [] then ''0'' else integer)
         @ (if fraction = [] then '''' else ''.'' @ fraction))"

subsection \<open>The balance hooks\<close>

text \<open>
  \<^verbatim>\<open>useEvmBalance\<close> and \<^verbatim>\<open>useSolanaBalance\<close> are the same hook up to three
  things: what evaluating the argument of the network call can throw, what
  \<^verbatim>\<open>getBalance\<close> does once the awaited call has settled, and the formatter. A hook
  instance is a state machine: its state holds the arguments of the latest render, the
  \<^verbatim>\<open>useState\<close> cell, the \<^verbatim>\<open>useMemo\<close> cell, the interval of the running effect,
  and a record of what the instance has done to the outside (network calls, console
  output, the settlement of the promises \<^verbatim>\<open>getBalance\<close> returned).
\<close>

datatype reason = Rejection string | RangeError

datatype 'v response = Fulfilled 'v | Rejected reason

datatype origin = FromEffect | FromTimer | FromCaller

datatype outcome = Returned | Threw reason

datatype action = SetBalance int | ConsoleError reason

record request =
  rq_address :: string
  rq_client :: nat
  rq_time :: nat
  rq_origin :: origin

record timer =
  tm_id :: nat
  tm_address :: "string option"
  tm_client :: nat
  tm_due :: nat

record props =
  p_address :: "string option"
  p_client :: nat
  p_poll :: "bool option"

text \<open>
  \<open>memo\<close> is the cell of \<^verbatim>\<open>useMemo\<close>: the dependency \<^verbatim>\<open>[balance]\<close> it was last
  computed for, and the value computed then. \<open>settled\<close> holds, for every call of
  \<^verbatim>\<open>getBalance\<close> that went past the address test and has completed, how its
  promise settled, with the index of its network call in \<open>requests\<close> when it made one.
\<close>

record hook =
  address :: "string option"
  client :: nat
  poll :: bool
  balance :: "int option"
  memo :: "int option \<times> string option"
  mounted :: bool
  cleanup :: "nat option"
  timers :: "timer list"
  next_timer :: nat
  now :: nat
  requests :: "request list"
  pending :: "nat list"
  console :: "reason list"
  settled :: "(nat option \<times> outcome) list"

text \<open>
  What differs between the two hooks. \<open>throws K a = Some e\<close> says that evaluating the
  argument of the network call for the address \<open>a\<close> throws \<open>e\<close>, before any call is
  made.
\<close>

record 'v variant =
  throws :: "string \<rightharpoonup> reason"
  after_await :: "'v response \<Rightarrow> action list \<times> outcome"
  formatter :: "int \<Rightarrow> string"

text \<open>The default value of the parameter: \<^verbatim>\<open>poll = false\<close>.\<close>

definition poll_of :: "props \<Rightarrow> bool" where
  "poll_of p = (case p_poll p of None \<Rightarrow> False | Some b \<Rightarrow> b)"

text \<open>\<^verbatim>\<open>!address\<close> holds of \<^verbatim>\<open>null\<close> and of the empty string.\<close>

definition truthy :: "string option \<Rightarrow> bool" where
  "truthy a = (case a of None \<Rightarrow> False | Some v \<Rightarrow> v \<noteq> [])"

text \<open>
  What \<^verbatim>\<open>getBalance\<close> does when the awaited expression has a result or has thrown,
  as the actions it performs and the settlement of its own promise. The EVM hook has
  no handler: a rejection becomes the rejection of \<^verbatim>\<open>getBalance\<close>. The Solana hook
  wraps the expression and the conversion \<^verbatim>\<open>BigInt(lamports)\<close> in a \<^verbatim>\<open>try\<close>; a
  rejected call and a throwing conversion reach the handler.

  \<^verbatim>\<open>BigInt\<close> of a \<^verbatim>\<open>number\<close> throws a \<^verbatim>\<open>RangeError\<close> unless the number is an
  integer (\<^verbatim>\<open>NaN\<close> and the infinities, which \<open>rat\<close> does not have, throw as well).
\<close>

definition BigInt :: "rat \<Rightarrow> reason + int" where
  "BigInt x = (if of_int \<lfloor>x\<rfloor> = x then Inr \<lfloor>x\<rfloor> else Inl RangeError)"

definition evm_settled :: "int response \<Rightarrow> action list \<times> outcome" where
  "evm_settled r =
     (case r of
        Fulfilled wei \<Rightarrow> ([SetBalance wei], Returned)
      | Rejected e \<Rightarrow> ([], Threw e))"

definition sol_settled :: "rat response \<Rightarrow> action list \<times> outcome" where
  "sol_settled r =
     (case r of
        Fulfilled lamports \<Rightarrow>
          (case BigInt lamports of
             Inr b \<Rightarrow> ([SetBalance b], Returned)
           | Inl error \<Rightarrow> ([ConsoleError error, SetBalance 0], Returned))
      | Rejected error \<Rightarrow> ([ConsoleError error, SetBalance 0], Returned))"

text \<open>
  \<^verbatim>\<open>setBalance\<close> writes the state cell of a mounted component; the framework
  discards an update addressed to a component that is gone.
\<close>

fun perform :: "action \<Rightarrow> hook \<Rightarrow> hook" where
  "perform (SetBalance v) s = (if mounted s then s\<lparr>balance := Some v\<rparr> else s)"
| "perform (ConsoleError e) s = s\<lparr>console := console s @ [e]\<rparr>"

text \<open>
  \<^verbatim>\<open>getBalance\<close> up to the \<^verbatim>\<open>await\<close>, for the closure over \<open>a\<close> and \<open>c\<close>: return
  at once without an address. Otherwise the argument of the network call is
  evaluated. When that throws, no call is made: the exception is handled as a
  rejection of the awaited call would be, within this call of \<^verbatim>\<open>getBalance\<close>.
  Otherwise the network call is made and entered in \<open>requests\<close>; its index there
  identifies it until it settles.
\<close>

definition getBalance :: "'v variant \<Rightarrow> string option \<Rightarrow> nat \<Rightarrow> origin \<Rightarrow> hook \<Rightarrow> hook" where
  "getBalance K a c origin s =
     (if \<not> truthy a then s
      else case throws K (the a) of
             Some e \<Rightarrow>
               (let s1 = fold perform (fst (after_await K (Rejected e))) s
                in s1\<lparr>settled := settled s1 @ [(None, snd (after_await K (Rejected e)))]\<rparr>)
           | None \<Rightarrow>
               s\<lparr>requests := requests s
                    @ [\<lparr>rq_address = the a, rq_client = c, rq_time = now s, rq_origin = origin\<rparr>],
                 pending := pending s @ [length (requests s)]\<rparr>)"

text \<open>
  The effect, with dependencies \<^verbatim>\<open>[getBalance, poll]\<close>: nothing without \<open>poll\<close>;
  otherwise one call of \<^verbatim>\<open>getBalance\<close>, then \<^verbatim>\<open>setInterval(getBalance, 500)\<close>,
  and the cleanup that clears this interval.
\<close>

definition run_effect :: "'v variant \<Rightarrow> hook \<Rightarrow> hook" where
  "run_effect K s =
     (if \<not> poll s then s\<lparr>cleanup := None\<rparr>
      else let s1 = getBalance K (address s) (client s) FromEffect s;
               interval = next_timer s1
           in s1\<lparr>timers := timers s1
                     @ [\<lparr>tm_id = interval, tm_address = address s, tm_client = client s,
                         tm_due = now s + 500\<rparr>],
                  next_timer := interval + 1,
                  cleanup := Some interval\<rparr>)"

definition run_cleanup :: "hook \<Rightarrow> hook" where
  "run_cleanup s =
     (case cleanup s of
        None \<Rightarrow> s
      | Some interval \<Rightarrow>
          s\<lparr>timers := filter (\<lambda>t. tm_id t \<noteq> interval) (timers s), cleanup := None\<rparr>)"

text \<open>
  \<^verbatim>\<open>useMemo\<close> at a render of a mounted component: the value is computed again
  exactly when the balance differs from the one it was last computed for.
\<close>

definition use_memo :: "(int \<Rightarrow> string) \<Rightarrow> hook \<Rightarrow> hook" where
  "use_memo f s =
     (if \<not> mounted s \<or> fst (memo s) = balance s then s
      else s\<lparr>memo := (balance s, case balance s of None \<Rightarrow> None | Some b \<Rightarrow> Some (f b))\<rparr>)"

text \<open>\<^verbatim>\<open>formattedBalance\<close> as the hook returns it: the value the memo holds.\<close>

definition formattedBalance :: "hook \<Rightarrow> string option" where
  "formattedBalance s = snd (memo s)"

text \<open>
  The first render, with an undefined balance, and the first run of the effect; the
  effect can set the balance, and a state that changed is rendered again.
\<close>

definition mount :: "'v variant \<Rightarrow> props \<Rightarrow> nat \<Rightarrow> hook" where
  "mount K p t0 =
     use_memo (formatter K)
       (run_effect K
          \<lparr>address = p_address p, client = p_client p, poll = poll_of p, balance = None,
           memo = (None, None), mounted = True, cleanup = None, timers = [], next_timer = 0,
           now = t0, requests = [], pending = [], console = [], settled = []\<rparr>)"

text \<open>
  A render with new arguments. \<^verbatim>\<open>useCallback\<close> yields a new \<^verbatim>\<open>getBalance\<close>
  exactly when \<open>address\<close> or \<open>client\<close> changed, so the effect is torn down and run
  again exactly when one of \<open>address\<close>, \<open>client\<close>, \<open>poll\<close> changed.
\<close>

definition render :: "'v variant \<Rightarrow> props \<Rightarrow> hook \<Rightarrow> hook" where
  "render K p s =
     (if \<not> mounted s then s
      else let changed = (p_address p \<noteq> address s \<or> p_client p \<noteq> client s
                            \<or> poll_of p \<noteq> poll s);
               s1 = s\<lparr>address := p_address p, client := p_client p, poll := poll_of p\<rparr>
           in if changed then run_effect K (run_cleanup s1) else s1)"

definition unmount :: "hook \<Rightarrow> hook" where
  "unmount s = (if \<not> mounted s then s else (run_cleanup s)\<lparr>mounted := False\<rparr>)"

text \<open>
  One unit of time passes: every interval that is due calls the \<^verbatim>\<open>getBalance\<close> it
  was created with and is due again 500 units later.
\<close>

definition tick :: "'v variant \<Rightarrow> hook \<Rightarrow> hook" where
  "tick K s =
     (let t = now s + 1;
          due = filter (\<lambda>i. tm_due i = t) (timers s);
          s1 = s\<lparr>now := t,
                 timers := map (\<lambda>i. if tm_due i = t then i\<lparr>tm_due := t + 500\<rparr> else i) (timers s)\<rparr>
      in fold (\<lambda>i. getBalance K (tm_address i) (tm_client i) FromTimer) due s1)"

text \<open>The \<^verbatim>\<open>getBalance\<close> the hook returned at its latest render, called from outside.\<close>

definition refresh :: "'v variant \<Rightarrow> hook \<Rightarrow> hook" where
  "refresh K s = getBalance K (address s) (client s) FromCaller s"

text \<open>The network call \<open>i\<close> settles with \<open>r\<close>; a call settles once.\<close>

definition settle :: "('v response \<Rightarrow> action list \<times> outcome) \<Rightarrow> nat \<Rightarrow> 'v response \<Rightarrow> hook \<Rightarrow> hook" where
  "settle k i r s =
     (if i \<notin> set (pending s) then s
      else let s1 = fold perform (fst (k r)) (s\<lparr>pending := removeAll i (pending s)\<rparr>)
           in s1\<lparr>settled := settled s1 @ [(Some i, snd (k r))]\<rparr>)"

datatype 'v event = Render props | Unmount | Tick | Refresh | Settle nat "'v response"

fun handle :: "'v variant \<Rightarrow> hook \<Rightarrow> 'v event \<Rightarrow> hook" where
  "handle K s (Render p) = render K p s"
| "handle K s Unmount = unmount s"
| "handle K s Tick = tick K s"
| "handle K s Refresh = refresh K s"
| "handle K s (Settle i r) = settle (after_await K) i r s"

text \<open>An event, and the render that follows it when it changed the state.\<close>

definition step :: "'v variant \<Rightarrow> hook \<Rightarrow> 'v event \<Rightarrow> hook" where
  "step K s e = use_memo (formatter K) (handle K s e)"

definition run :: "'v variant \<Rightarrow> 'v event list \<Rightarrow> hook \<Rightarrow> hook" where
  "run K es s = foldl (step K) s es"

text \<open>
  The function under the memo of either hook, at the current balance.
\<close>

definition evm_formattedBalance :: "hook \<Rightarrow> string option" where
  "evm_formattedBalance s =
     (case balance s of None \<Rightarrow> None | Some b \<Rightarrow> Some (formatEther b))"

definition sol_formattedBalance :: "(rat \<Rightarrow> string) \<Rightarrow> hook \<Rightarrow> string option" where
  "sol_formattedBalance ToString s =
     (case balance s of None \<Rightarrow> None | Some b \<Rightarrow> Some (formatSol ToString (Number b)))"

text \<open>
  The two hooks. The argument of the EVM client's call is an object literal, which
  does not throw. The Solana hook builds \<^verbatim>\<open>new PublicKey(address)\<close>; the
  constructor belongs to the Solana library and is a parameter: \<open>PublicKey a = Some e\<close>
  when it refuses the address \<open>a\<close> and throws \<open>e\<close>.
\<close>

definition evm :: "int variant" where
  "evm = \<lparr>throws = Map.empty, after_await = evm_settled, formatter = formatEther\<rparr>"

definition solana :: "(string \<rightharpoonup> reason) \<Rightarrow> (rat \<Rightarrow> string) \<Rightarrow> rat variant" where
  "solana PublicKey ToString =
     \<lparr>throws = PublicKey, after_await = sol_settled,
      formatter = (\<lambda>b. formatSol ToString (Number b))\<rparr>"

text \<open>Either hook, mounted at time \<open>t0\<close> with arguments \<open>p\<close>, after the events \<open>es\<close>.\<close>

definition useEvmBalance :: "props \<Rightarrow> nat \<Rightarrow> int event list \<Rightarrow> hook" where
  "useEvmBalance p t0 es = run evm es (mount evm p t0)"

definition useSolanaBalance ::
  "(string \<rightharpoonup> reason) \<Rightarrow> (rat \<Rightarrow> string) \<Rightarrow> props \<Rightarrow> nat \<Rightarrow> rat event list \<Rightarrow> hook" where
  "useSolanaBalance PublicKey ToString p t0 es =
     run (solana PublicKey ToString) es (mount (solana PublicKey ToString) p t0)"

text \<open>The timed network calls of a hook: those the effect and the interval made.\<close>

definition timed_fetches :: "hook \<Rightarrow> nat list" where
  "timed_fetches s = map rq_time (filter (\<lambda>r. rq_origin r \<noteq> FromCaller) (requests s))"

definition elapsed :: "'v event list \<Rightarrow> nat" where
  "elapsed es = length (filter (\<lambda>e. e = Tick) es)"

text \<open>Events under which the component stays mounted with the arguments \<open>p\<close>.\<close>

fun keeps :: "props \<Rightarrow> 'v event \<Rightarrow> bool" where
  "keeps p (Render q) = (p_address q = p_address p \<and> p_client q = p_client p \<and> poll_of q = poll_of p)"
| "keeps p Unmount = False"
| "keeps p _ = True"

text \<open>Events under which the address stays absent.\<close>

fun keeps_no_address :: "'v event \<Rightarrow> bool" where
  "keeps_no_address (Render q) = (\<not> truthy (p_address q))"
| "keeps_no_address _ = True"

subsection \<open>The screen\<close>

text \<open>
  \<^verbatim>\<open>SignedInScreen\<close> holds four hook instances, one per network, each over its own
  module-level client or connection. The Solana mainnet instance is created without
  the third argument. Each widget receives the \<^verbatim>\<open>getBalance\<close> of one instance as
  its \<^verbatim>\<open>onSuccess\<close>, and is rendered only with an address and a signed-in user.
\<close>

datatype evm_network = Base | BaseSepolia

datatype solana_network = Mainnet | Devnet

datatype widget = FundWalletBase | EVMTransaction | FundWalletSolana | SolanaTransaction

text \<open>
  The module-level clients and connections, by their identity. The Base client is
  \<^verbatim>\<open>client\<close> in the source, a name the hook's state already uses.
\<close>

definition base_client :: nat where "base_client = 0"
definition sepoliaClient :: nat where "sepoliaClient = 1"
definition solanaMainnetConnection :: nat where "solanaMainnetConnection = 2"
definition solanaDevnetConnection :: nat where "solanaDevnetConnection = 3"

record screen =
  isSignedIn :: bool
  evmAddress :: "string option"
  solanaAddress :: "string option"
  evm_base :: hook
  evm_sepolia :: hook
  solana_mainnet :: hook
  solana_devnet :: hook

definition base_props :: "string option \<Rightarrow> props" where
  "base_props a = \<lparr>p_address = a, p_client = base_client, p_poll = Some True\<rparr>"

definition sepolia_props :: "string option \<Rightarrow> props" where
  "sepolia_props a = \<lparr>p_address = a, p_client = sepoliaClient, p_poll = Some True\<rparr>"

definition mainnet_props :: "string option \<Rightarrow> props" where
  "mainnet_props a = \<lparr>p_address = a, p_client = solanaMainnetConnection, p_poll = None\<rparr>"

definition devnet_props :: "string option \<Rightarrow> props" where
  "devnet_props a = \<lparr>p_address = a, p_client = solanaDevnetConnection, p_poll = Some True\<rparr>"

text \<open>
  The screen at its first render. \<open>PublicKey\<close> and \<open>ToString\<close> are the two parameters
  of the Solana hook.
\<close>

definition SignedInScreen ::
  "(string \<rightharpoonup> reason) \<Rightarrow> (rat \<Rightarrow> string) \<Rightarrow> bool \<Rightarrow> string option \<Rightarrow> string option \<Rightarrow> nat
    \<Rightarrow> screen" where
  "SignedInScreen PublicKey ToString signedIn evmA solA t0 =
     \<lparr>isSignedIn = signedIn, evmAddress = evmA, solanaAddress = solA,
      evm_base = mount evm (base_props evmA) t0,
      evm_sepolia = mount evm (sepolia_props evmA) t0,
      solana_mainnet = mount (solana PublicKey ToString) (mainnet_props solA) t0,
      solana_devnet = mount (solana PublicKey ToString) (devnet_props solA) t0\<rparr>"

datatype screen_event =
    Auth bool "string option" "string option"
  | Elapse
  | Leave
  | EvmSettled evm_network nat "int response"
  | SolanaSettled solana_network nat "rat response"
  | OnSuccess widget

text \<open>A widget is on the screen, so that its \<^verbatim>\<open>onSuccess\<close> can be called.\<close>

fun rendered :: "screen \<Rightarrow> widget \<Rightarrow> bool" where
  "rendered s FundWalletBase = (mounted (evm_base s) \<and> truthy (evmAddress s) \<and> isSignedIn s)"
| "rendered s EVMTransaction = (mounted (evm_sepolia s) \<and> truthy (evmAddress s) \<and> isSignedIn s)"
| "rendered s FundWalletSolana =
     (mounted (solana_mainnet s) \<and> truthy (solanaAddress s) \<and> isSignedIn s)"
| "rendered s SolanaTransaction =
     (mounted (solana_devnet s) \<and> truthy (solanaAddress s) \<and> isSignedIn s)"

fun onSuccess ::
  "(string \<rightharpoonup> reason) \<Rightarrow> (rat \<Rightarrow> string) \<Rightarrow> widget \<Rightarrow> screen \<Rightarrow> screen" where
  "onSuccess PublicKey ToString FundWalletBase s =
     s\<lparr>evm_base := step evm (evm_base s) Refresh\<rparr>"
| "onSuccess PublicKey ToString EVMTransaction s =
     s\<lparr>evm_sepolia := step evm (evm_sepolia s) Refresh\<rparr>"
| "onSuccess PublicKey ToString FundWalletSolana s =
     s\<lparr>solana_mainnet := step (solana PublicKey ToString) (solana_mainnet s) Refresh\<rparr>"
| "onSuccess PublicKey ToString SolanaTransaction s =
     s\<lparr>solana_devnet := step (solana PublicKey ToString) (solana_devnet s) Refresh\<rparr>"

fun screen_step ::
  "(string \<rightharpoonup> reason) \<Rightarrow> (rat \<Rightarrow> string) \<Rightarrow> screen \<Rightarrow> screen_event \<Rightarrow> screen" where
  "screen_step PublicKey ToString s (Auth signedIn evmA solA) =
     s\<lparr>isSignedIn := signedIn, evmAddress := evmA, solanaAddress := solA,
       evm_base := step evm (evm_base s) (Render (base_props evmA)),
       evm_sepolia := step evm (evm_sepolia s) (Render (sepolia_props evmA)),
       solana_mainnet :=
         step (solana PublicKey ToString) (solana_mainnet s) (Render (mainnet_props solA)),
       solana_devnet :=
         step (solana PublicKey ToString) (solana_devnet s) (Render (devnet_props solA))\<rparr>"
| "screen_step PublicKey ToString s Elapse =
     s\<lparr>evm_base := step evm (evm_base s) Tick, evm_sepolia := step evm (evm_sepolia s) Tick,
       solana_mainnet := step (solana PublicKey ToString) (solana_mainnet s) Tick,
       solana_devnet := step (solana PublicKey ToString) (solana_devnet s) Tick\<rparr>"
| "screen_step PublicKey ToString s Leave =
     s\<lparr>evm_base := step evm (evm_base s) Unmount,
       evm_sepolia := step evm (evm_sepolia s) Unmount,
       solana_mainnet := step (solana PublicKey ToString) (solana_mainnet s) Unmount,
       solana_devnet := step (solana PublicKey ToString) (solana_devnet s) Unmount\<rparr>"
| "screen_step PublicKey ToString s (EvmSettled Base i r) =
     s\<lparr>evm_base := step evm (evm_base s) (Settle i r)\<rparr>"
| "screen_step PublicKey ToString s (EvmSettled BaseSepolia i r) =
     s\<lparr>evm_sepolia := step evm (evm_sepolia s) (Settle i r)\<rparr>"
| "screen_step PublicKey ToString s (SolanaSettled Mainnet i r) =
     s\<lparr>solana_mainnet := step (solana PublicKey ToString) (solana_mainnet s) (Settle i r)\<rparr>"
| "screen_step PublicKey ToString s (SolanaSettled Devnet i r) =
     s\<lparr>solana_devnet := step (solana PublicKey ToString) (solana_devnet s) (Settle i r)\<rparr>"
| "screen_step PublicKey ToString s (OnSuccess w) =
     (if rendered s w then onSuccess PublicKey ToString w s else s)"

definition run_screen ::
  "(string \<rightharpoonup> reason) \<Rightarrow> (rat \<Rightarrow> string) \<Rightarrow> screen_event list \<Rightarrow> screen \<Rightarrow> screen" where
  "run_screen PublicKey ToString es s = foldl (screen_step PublicKey ToString) s es"

subsection \<open>Invariants of the hooks\<close>

text \<open>
  The interval of a hook instance: none without a cleanup, and with a cleanup exactly
  the one interval it clears, created over the current \<open>address\<close> and \<open>client\<close> and
  due within the next 500 units.
\<close>

definition scheduled :: "hook \<Rightarrow> bool" where
  "scheduled s =
     (case cleanup s of
        None \<Rightarrow> timers s = [] \<and> \<not> (mounted s \<and> poll s)
      | Some interval \<Rightarrow>
          mounted s \<and> poll s
          \<and> timers s = [\<lparr>tm_id = interval, tm_address = address s, tm_client = client s,
                          tm_due = tm_due (hd (timers s))\<rparr>]
          \<and> now s < tm_due (hd (timers s)) \<and> tm_due (hd (timers s)) \<le> now s + 500)"

text \<open>A hook instance that has no address and has never had one.\<close>

definition idle :: "hook \<Rightarrow> bool" where
  "idle s = (\<not> truthy (address s) \<and> list_all (\<lambda>t. \<not> truthy (tm_address t)) (timers s)
     \<and> requests s = [] \<and> pending s = [] \<and> balance s = None \<and> memo s = (None, None))"

text \<open>A hook instance that has not been asked to poll and has not called \<^verbatim>\<open>getBalance\<close> yet.\<close>

definition dormant :: "hook \<Rightarrow> bool" where
  "dormant h = (\<not> poll h \<and> cleanup h = None \<and> timers h = [] \<and> requests h = []
     \<and> pending h = [] \<and> balance h = None \<and> memo h = (None, None) \<and> console h = []
     \<and> settled h = [])"

text \<open>A hook instance that has never polled: no interval, no timed call.\<close>

definition unpolled :: "hook \<Rightarrow> bool" where
  "unpolled h = (\<not> poll h \<and> cleanup h = None \<and> timers h = [] \<and> timed_fetches h = [])"

text \<open>The mainnet instance of a mounted screen was rendered with the screen's address.\<close>

definition in_sync :: "screen \<Rightarrow> bool" where
  "in_sync s = (\<not> mounted (solana_mainnet s)
     \<or> address (solana_mainnet s) = solanaAddress s
        \<and> client (solana_mainnet s) = solanaMainnetConnection)"

text \<open>
  The state \<open>s'\<close> comes after \<open>s\<close>: the calls of \<^verbatim>\<open>getBalance\<close> that had completed
  by \<open>s\<close> are still on record, in order, and the balance differs only if another call
  has completed since.
\<close>

definition logged :: "hook \<Rightarrow> hook \<Rightarrow> bool" where
  "logged s s' = (take (length (settled s)) (settled s') = settled s
     \<and> length (settled s) \<le> length (settled s')
     \<and> (length (settled s') = length (settled s) \<longrightarrow> balance s' = balance s))"

text \<open>The memo holds the value of its function at the current balance.\<close>

definition memo_current :: "(int \<Rightarrow> string) \<Rightarrow> hook \<Rightarrow> bool" where
  "memo_current f s =
     (memo s = (balance s, case balance s of None \<Rightarrow> None | Some b \<Rightarrow> Some (f b)))"

section \<open>Decimal strings and rounding\<close>

subsection \<open>Digits\<close>

lemma digit_char_props:
  assumes "d < 10"
  shows "digit_val (digit_char d) = int d" and "is_digit (digit_char d)"
    and "digit_char d = CHR ''0'' \<longleftrightarrow> d = 0"
proof -
  from assms have "d \<in> {0, 1, 2, 3, 4, 5, 6, 7, 8, 9}" by auto
  then show "digit_val (digit_char d) = int d" and "is_digit (digit_char d)"
    and "digit_char d = CHR ''0'' \<longleftrightarrow> d = 0"
    by (auto simp: digit_char_def digit_val_def is_digit_def)
qed

lemma digits_all_digit: "list_all is_digit (digits n)"
proof (induction n rule: digits.induct)
  case (1 n)
  show ?case
  proof (cases "n < 10")
    case True
    then show ?thesis
      by (subst digits.simps) (simp add: digit_char_props(2))
  next
    case False
    with 1 show ?thesis
      by (subst digits.simps) (simp add: digit_char_props(2))
  qed
qed

lemma digits_nonempty: "digits n \<noteq> []"
  by (subst digits.simps) simp

lemma int_of_digits_snoc: "int_of_digits (xs @ [c]) = 10 * int_of_digits xs + digit_val c"
  by (simp add: int_of_digits_def)

lemma int_of_digits_Nil: "int_of_digits [] = 0"
  by (simp add: int_of_digits_def)

lemma int_of_digits_append:
  "int_of_digits (xs @ ys) = int_of_digits xs * 10 ^ length ys + int_of_digits ys"
proof (induction ys rule: rev_induct)
  case Nil
  show ?case by (simp add: int_of_digits_Nil)
next
  case (snoc y ys)
  have "int_of_digits (xs @ ys @ [y]) = 10 * int_of_digits (xs @ ys) + digit_val y"
    using int_of_digits_snoc [of "xs @ ys" y] by simp
  with snoc show ?case
    by (simp add: int_of_digits_snoc algebra_simps)
qed

lemma int_of_digits_digits: "0 \<le> n \<Longrightarrow> int_of_digits (digits n) = n"
proof (induction n rule: digits.induct)
  case (1 n)
  show ?case
  proof (cases "n < 10")
    case True
    with 1(2) have "nat n < 10" by simp
    with True 1(2) show ?thesis
      by (subst digits.simps) (simp add: int_of_digits_def digit_char_props(1))
  next
    case False
    with 1 have ih: "int_of_digits (digits (n div 10)) = n div 10" by simp
    from 1(2) have "nat (n mod 10) < 10" by simp
    then have "digit_val (digit_char (nat (n mod 10))) = n mod 10"
      by (simp add: digit_char_props(1))
    with False ih show ?thesis
      by (subst digits.simps) (simp add: int_of_digits_snoc)
  qed
qed

lemma int_of_digits_zeros: "int_of_digits (replicate k CHR ''0'') = 0"
  by (induction k) (simp_all add: int_of_digits_Nil int_of_digits_append [of "[c]" for c, simplified] int_of_digits_def digit_val_def)

lemma digits_length_le:
  fixes j :: nat
  assumes "0 < j" "n < 10 ^ j"
  shows "length (digits n) \<le> j"
  using assms
proof (induction n arbitrary: j rule: digits.induct)
  case (1 n)
  show ?case
  proof (cases "n < 10")
    case True
    with 1(2) show ?thesis by (subst digits.simps) simp
  next
    case False
    with 1(3) have "1 < j" by (cases "j = 1") (use 1(2) in auto)
    then obtain i where j: "j = Suc i" "0 < i" by (cases j) auto
    from 1(3) j have "n div 10 < 10 ^ i" by simp
    with 1(1) [OF False j(2)] have "length (digits (n div 10)) \<le> i" .
    with False j show ?thesis by (subst digits.simps) simp
  qed
qed

lemma digits_split:
  fixes j :: nat
  assumes "10 ^ j \<le> n"
  shows "j < length (digits n) \<and> take (length (digits n) - j) (digits n) = digits (n div 10 ^ j)"
  using assms
proof (induction j arbitrary: n)
  case 0
  show ?case using digits_nonempty [of n] by simp
next
  case (Suc j)
  have "(10::int) \<le> 10 ^ Suc j" by simp
  with Suc.prems have ge: "10 \<le> n" by linarith
  from Suc.prems have "10 ^ j \<le> n div 10" by simp
  note ih = Suc.IH [OF this]
  from ge have d: "digits n = digits (n div 10) @ [digit_char (nat (n mod 10))]"
    by (subst digits.simps) simp
  from ih have "take (length (digits n) - Suc j) (digits n)
      = take (length (digits (n div 10)) - j) (digits (n div 10))"
    by (simp add: d)
  also have "\<dots> = digits (n div 10 div 10 ^ j)" using ih by simp
  also have "n div 10 div 10 ^ j = n div 10 ^ Suc j"
    by (simp add: zdiv_zmult2_eq)
  finally have "take (length (digits n) - Suc j) (digits n) = digits (n div 10 ^ Suc j)" .
  with ih show ?case by (simp add: d)
qed

lemma digits_0: "digits 0 = ''0''"
  by (subst digits.simps) (simp add: digit_char_def)

text \<open>The integer part of a rendering with \<open>f\<close> fraction digits.\<close>

lemma fixed_integer_part:
  fixes f :: nat
  assumes "0 \<le> n" "0 < f"
  defines "m \<equiv> (if length (digits n) \<le> f
                  then replicate (f + 1 - length (digits n)) CHR ''0'' @ digits n else digits n)"
    and "k \<equiv> (if length (digits n) \<le> f then f + 1 else length (digits n))"
  shows "take (k - f) m = digits (n div 10 ^ f)"
proof (cases "n < 10 ^ f")
  case True
  with assms(2) have le: "length (digits n) \<le> f" by (intro digits_length_le)
  from True assms(1) have "n div 10 ^ f = 0" by simp
  with le digits_nonempty [of n] show ?thesis
    by (simp add: m_def k_def digits_0)
next
  case False
  then have ge: "10 ^ f \<le> n" by simp
  from digits_split [OF ge] show ?thesis by (simp add: m_def k_def)
qed

lemma padded_integer_part:
  fixes f :: nat
  assumes "0 \<le> n" "0 < f"
  defines "m \<equiv> replicate (f - length (digits n)) CHR ''0'' @ digits n"
  shows "(if take (length m - f) m = [] then ''0'' else take (length m - f) m)
    = digits (n div 10 ^ f)"
proof (cases "n < 10 ^ f")
  case True
  from True assms(1) have z: "n div 10 ^ f = 0" by simp
  from assms(2) True have "length (digits n) \<le> f" by (rule digits_length_le)
  then show ?thesis by (simp add: m_def z digits_0)
next
  case False
  then have ge: "10 ^ f \<le> n" by simp
  from digits_split [OF ge] digits_nonempty [of "n div 10 ^ f"] show ?thesis
    by (simp add: m_def)
qed

subsection \<open>Trimming a fixed-point rendering\<close>

lemma not_digit_dot: "\<not> is_digit CHR ''.''"
  by (simp add: is_digit_def)

lemma rtz_decomp: "\<exists>j. s = replace_trailing_zeros s @ replicate j CHR ''0''"
proof -
  let ?P = "\<lambda>c. c = CHR ''0''"
  have "takeWhile ?P (rev s) = replicate (length (takeWhile ?P (rev s))) CHR ''0''"
    by (rule replicate_length_same [symmetric]) (auto dest: set_takeWhileD)
  moreover have "s = rev (dropWhile ?P (rev s)) @ rev (takeWhile ?P (rev s))"
    by (metis rev_append rev_rev_ident takeWhile_dropWhile_id)
  ultimately have "s = replace_trailing_zeros s
      @ replicate (length (takeWhile ?P (rev s))) CHR ''0''"
    by (metis replace_trailing_zeros_def rev_replicate)
  then show ?thesis ..
qed

lemma rtz_all_digit: "list_all is_digit s \<Longrightarrow> list_all is_digit (replace_trailing_zeros s)"
  by (auto simp: replace_trailing_zeros_def list_all_iff dest: set_dropWhileD)

lemma rtz_length: "length (replace_trailing_zeros s) \<le> length s"
  by (simp add: replace_trailing_zeros_def length_dropWhile_le [of _ "rev s", simplified])

lemma rtz_last:
  assumes "replace_trailing_zeros s \<noteq> []"
  shows "last (replace_trailing_zeros s) \<noteq> CHR ''0''"
proof -
  let ?d = "dropWhile (\<lambda>c. c = CHR ''0'') (rev s)"
  from assms have ne: "?d \<noteq> []" by (simp add: replace_trailing_zeros_def)
  then have "hd ?d \<noteq> CHR ''0''" using hd_dropWhile [of "\<lambda>c. c = CHR ''0''" "rev s"] by blast
  with ne show ?thesis by (simp add: replace_trailing_zeros_def last_rev)
qed

lemma rtz_idem: "replace_trailing_zeros (replace_trailing_zeros s) = replace_trailing_zeros s"
  by (simp add: replace_trailing_zeros_def)

lemma rtz_value:
  "(of_int (int_of_digits (replace_trailing_zeros b)) :: rat) / 10 ^ length (replace_trailing_zeros b)
     = of_int (int_of_digits b) / 10 ^ length b"
proof -
  obtain j where j: "b = replace_trailing_zeros b @ replicate j CHR ''0''"
    using rtz_decomp by blast
  let ?c = "replace_trailing_zeros b"
  have "int_of_digits b = int_of_digits ?c * 10 ^ j"
    by (subst j) (simp add: int_of_digits_append int_of_digits_zeros)
  moreover have "length b = length ?c + j"
    by (subst j) simp
  ultimately show ?thesis
    by (simp add: power_add)
qed

lemma rtz_after_dot:
  "replace_trailing_zeros (a @ ''.'' @ b) = a @ ''.'' @ replace_trailing_zeros b"
proof -
  let ?P = "\<lambda>c. c = CHR ''0''"
  have "dropWhile ?P (rev b @ CHR ''.'' # rev a) = dropWhile ?P (rev b) @ CHR ''.'' # rev a"
    by (simp add: dropWhile_append)
  then show ?thesis
    by (simp add: replace_trailing_zeros_def)
qed

lemma trim_fixed:
  assumes "list_all is_digit b"
  shows "replace_trailing_dot (replace_trailing_zeros (a @ ''.'' @ b))
           = a @ (if replace_trailing_zeros b = [] then [] else ''.'' @ replace_trailing_zeros b)"
proof (cases "replace_trailing_zeros b = []")
  case True
  then show ?thesis
    unfolding rtz_after_dot by (simp add: replace_trailing_dot_def)
next
  case False
  from assms have "list_all is_digit (replace_trailing_zeros b)" by (rule rtz_all_digit)
  with False have "is_digit (last (replace_trailing_zeros b))"
    by (simp add: list_all_iff)
  then have "last (replace_trailing_zeros b) \<noteq> CHR ''.''"
    using not_digit_dot by auto
  with False show ?thesis
    unfolding rtz_after_dot by (simp add: replace_trailing_dot_def)
qed

lemma decimal_value_int:
  assumes "a \<noteq> []" "list_all is_digit a"
  shows "decimal_value a = Some (of_int (int_of_digits a))"
proof -
  from assms(2) have split: "takeWhile is_digit a = a" "dropWhile is_digit a = []"
    by (simp_all add: list_all_iff)
  from assms(1) show ?thesis by (simp add: decimal_value_def Let_def split)
qed

lemma decimal_value_frac:
  assumes "a \<noteq> []" "list_all is_digit a" "b \<noteq> []" "list_all is_digit b"
  shows "decimal_value (a @ ''.'' @ b)
           = Some (of_int (int_of_digits a) + of_int (int_of_digits b) / 10 ^ length b)"
proof -
  from assms(2) have split: "takeWhile is_digit (a @ ''.'' @ b) = a"
    "dropWhile is_digit (a @ ''.'' @ b) = ''.'' @ b"
    by (simp_all add: list_all_iff takeWhile_append dropWhile_append not_digit_dot)
  from assms(1,3,4) show ?thesis
    unfolding decimal_value_def Let_def split by simp
qed

lemma fraction_part_frac:
  assumes "list_all is_digit a"
  shows "fraction_part (a @ ''.'' @ b) = b" and "fraction_part a = []"
proof -
  from assms have "\<forall>c\<in>set a. c \<noteq> CHR ''.''"
    using not_digit_dot by (auto simp: list_all_iff)
  then have none: "dropWhile (\<lambda>c. c \<noteq> CHR ''.'') a = []"
    by (simp add: dropWhile_eq_Nil_conv)
  show "fraction_part (a @ ''.'' @ b) = b" and "fraction_part a = []"
    by (simp_all add: fraction_part_def dropWhile_append none)
qed

text \<open>A digit string \<open>a\<close>, a point and a digit string \<open>b\<close>, trimmed.\<close>

lemma trimmed_value:
  assumes "a \<noteq> []" "list_all is_digit a" "list_all is_digit b"
  defines "out \<equiv> a @ (if replace_trailing_zeros b = [] then [] else ''.'' @ replace_trailing_zeros b)"
  shows "decimal_value out = Some (of_int (int_of_digits a) + of_int (int_of_digits b) / 10 ^ length b)"
    and "fraction_part out = replace_trailing_zeros b"
    and "out \<noteq> []" and "last out \<noteq> CHR ''.''" and "takeWhile is_digit out = a"
proof -
  let ?c = "replace_trailing_zeros b"
  have c: "list_all is_digit ?c" using assms(3) by (rule rtz_all_digit)
  from assms(2) have "takeWhile is_digit (a @ ''.'' @ ?c) = a" "takeWhile is_digit a = a"
    by (simp_all add: list_all_iff takeWhile_append not_digit_dot)
  then show "takeWhile is_digit out = a"
    by (simp add: out_def)
  show "decimal_value out = Some (of_int (int_of_digits a) + of_int (int_of_digits b) / 10 ^ length b)"
  proof (cases "?c = []")
    case True
    with rtz_value [of b] have "(of_int (int_of_digits b) :: rat) / 10 ^ length b = 0"
      by (simp add: int_of_digits_Nil)
    with True assms(1,2) show ?thesis
      by (simp add: out_def decimal_value_int)
  next
    case False
    with assms(1,2) c have "decimal_value (a @ ''.'' @ ?c)
        = Some (of_int (int_of_digits a) + of_int (int_of_digits ?c) / 10 ^ length ?c)"
      by (intro decimal_value_frac)
    with False show ?thesis
      by (simp add: out_def rtz_value)
  qed
  show "fraction_part out = ?c"
    using fraction_part_frac [OF assms(2)] by (simp add: out_def)
  show "out \<noteq> []" using assms(1) by (simp add: out_def)
  have "is_digit (last out)"
    using assms(1,2) c by (auto simp: out_def list_all_iff)
  then show "last out \<noteq> CHR ''.''"
    using not_digit_dot by auto
qed

subsection \<open>Rounding to binary64\<close>

lemma round_half_even_error: "\<bar>of_int (round_half_even r) - r\<bar> \<le> 1 / 2"
proof -
  have "of_int \<lfloor>r\<rfloor> \<le> r" "r < of_int \<lfloor>r\<rfloor> + 1" by linarith+
  then show ?thesis
    by (auto simp: round_half_even_def Let_def)
qed

lemma round_half_even_of_int: "round_half_even (of_int z) = z"
  by (simp add: round_half_even_def)

lemma round_half_even_nonneg: "0 \<le> r \<Longrightarrow> 0 \<le> round_half_even r"
  by (auto simp: round_half_even_def Let_def)

lemma quotient_of_pos:
  assumes "0 < q"
  shows "0 < fst (quotient_of q)" and "0 < snd (quotient_of q)"
    and "q = of_int (fst (quotient_of q)) / of_int (snd (quotient_of q))"
proof -
  obtain a b where ab: "quotient_of q = (a, b)" by (cases "quotient_of q")
  then have b: "0 < b" by (rule quotient_of_denom_pos)
  from ab have q: "q = of_int a / of_int b" by (rule quotient_of_div)
  with assms b have "0 < a" by (simp add: zero_less_divide_iff)
  with ab b q show "0 < fst (quotient_of q)" and "0 < snd (quotient_of q)"
    and "q = of_int (fst (quotient_of q)) / of_int (snd (quotient_of q))" by simp_all
qed

lemma bitlen_powi_bounds:
  assumes "0 < a"
  shows "(2::rat) powi (bitlen a - 1) \<le> of_int a" and "of_int a < (2::rat) powi bitlen a"
proof -
  from assms have pos: "1 \<le> bitlen a" using bitlen_bounds [OF assms] bitlen_nonneg [of a]
    by (metis bitlen_eq_zero_iff int_one_le_iff_zero_less le_less not_less)
  from bitlen_bounds [OF assms] have "2 ^ nat (bitlen a - 1) \<le> a" "a < 2 ^ nat (bitlen a)"
    by simp_all
  then have "(of_int (2 ^ nat (bitlen a - 1)) :: rat) \<le> of_int a"
    "(of_int a :: rat) < of_int (2 ^ nat (bitlen a))"
    by (simp_all only: of_int_le_iff of_int_less_iff)
  with pos show "(2::rat) powi (bitlen a - 1) \<le> of_int a" and "of_int a < (2::rat) powi bitlen a"
    by (simp_all add: power_int_def)
qed

lemma ilog2_bounds:
  assumes "0 < q"
  shows "2 powi ilog2 q \<le> q" and "q < 2 powi (ilog2 q + 1)"
proof -
  let ?a = "fst (quotient_of q)" and ?b = "snd (quotient_of q)"
  let ?k = "bitlen ?a - bitlen ?b"
  note ab = quotient_of_pos [OF assms]
  note la = bitlen_powi_bounds [OF ab(1)]
  note lb = bitlen_powi_bounds [OF ab(2)]
  have bpos: "(0::rat) < of_int ?b" using ab(2) by simp
  have "(2::rat) powi (?k - 1) = 2 powi (bitlen ?a - 1) / 2 powi bitlen ?b"
    by (simp add: power_int_diff)
  also have "\<dots> \<le> of_int ?a / 2 powi bitlen ?b"
    using la(1) by (simp add: divide_right_mono)
  also have "\<dots> \<le> of_int ?a / of_int ?b"
    using lb(2) ab(1) bpos by (intro divide_left_mono) simp_all
  also have "\<dots> = q" using ab(3) by simp
  finally have low: "(2::rat) powi (?k - 1) \<le> q" .
  have "q = of_int ?a / of_int ?b" using ab(3) .
  also have "\<dots> < 2 powi bitlen ?a / of_int ?b"
    using la(2) bpos by (simp add: divide_strict_right_mono)
  also have "\<dots> \<le> 2 powi bitlen ?a / 2 powi (bitlen ?b - 1)"
    using lb(1) bpos by (intro divide_left_mono) simp_all
  also have "\<dots> = 2 powi (?k + 1)"
    by (simp add: power_int_diff power_int_add)
  finally have high: "q < 2 powi (?k + 1)" .
  show "2 powi ilog2 q \<le> q"
    using low by (simp add: ilog2_def Let_def)
  show "q < 2 powi (ilog2 q + 1)"
    using high by (auto simp: ilog2_def Let_def not_le)
qed

lemma ilog2_less:
  assumes "0 < q" "q < 2 powi n"
  shows "ilog2 q < n"
proof (rule ccontr)
  assume "\<not> ilog2 q < n"
  then have "(2::rat) powi n \<le> 2 powi ilog2 q"
    by (intro power_int_increasing) simp_all
  with ilog2_bounds(1) [OF assms(1)] assms(2) show False by simp
qed

lemma fl64_error:
  assumes "0 < q"
  shows "\<bar>fl64 q - q\<bar> \<le> ulp64 q / 2" and "0 \<le> fl64 q"
proof -
  let ?u = "ulp64 q"
  have u: "0 < ?u" by (simp add: ulp64_def)
  have "\<bar>of_int (round_half_even (q / ?u)) - q / ?u\<bar> \<le> 1 / 2"
    by (rule round_half_even_error)
  then have "\<bar>of_int (round_half_even (q / ?u)) - q / ?u\<bar> * ?u \<le> 1 / 2 * ?u"
    using u by (intro mult_right_mono) simp_all
  moreover have "\<bar>of_int (round_half_even (q / ?u)) - q / ?u\<bar> * ?u
      = \<bar>of_int (round_half_even (q / ?u)) * ?u - q\<bar>"
  proof -
    have "\<bar>of_int (round_half_even (q / ?u)) - q / ?u\<bar> * ?u
        = \<bar>(of_int (round_half_even (q / ?u)) - q / ?u) * ?u\<bar>"
      using u by (simp add: abs_mult)
    also have "(of_int (round_half_even (q / ?u)) - q / ?u) * ?u
        = of_int (round_half_even (q / ?u)) * ?u - q"
      using u by (simp add: left_diff_distrib)
    finally show ?thesis .
  qed
  ultimately show "\<bar>fl64 q - q\<bar> \<le> ?u / 2"
    using assms by (simp add: fl64_def)
  have "0 \<le> round_half_even (q / ?u)"
    using assms u by (intro round_half_even_nonneg) simp
  then show "0 \<le> fl64 q"
    using assms u by (simp add: fl64_def)
qed

lemma ulp64_small:
  assumes "0 < q" "q < 2 powi n" "- 1022 < n"
  shows "ulp64 q \<le> 2 powi (n - 53)"
proof -
  from assms(1,2) have "ilog2 q < n" by (rule ilog2_less)
  with assms(3) have "max (ilog2 q) (- 1022) - 52 \<le> n - 53" by simp
  then show ?thesis
    unfolding ulp64_def by (intro power_int_increasing) simp_all
qed

lemma fl64_lamports:
  assumes "0 \<le> L" "L < 8388608000000000"
  defines "x \<equiv> fl64 (of_int L / 1000000000)"
  shows "\<lfloor>x * 10 ^ 9 + 1 / 2\<rfloor> = L" and "0 \<le> x" and "x < 10 ^ 21"
proof -
  have main: "x * 1000000000 - of_int L < 1 / 2 \<and> - (1 / 2) < x * 1000000000 - of_int L \<and> 0 \<le> x"
  proof (cases "L = 0")
    case True
    then show ?thesis by (simp add: x_def fl64_def)
  next
    case False
    let ?q = "of_int L / 1000000000 :: rat"
    from False assms(1) have pos: "0 < ?q" by simp
    from assms(2) have "(of_int L :: rat) < 8388608000000000"
      by (metis of_int_less_iff of_int_numeral)
    then have "?q < 2 powi 23" by simp
    with pos have "ulp64 ?q \<le> 2 powi (23 - 53)" by (intro ulp64_small) simp_all
    then have u: "ulp64 ?q \<le> 1 / 1073741824" by (simp add: power_int_minus_divide)
    from fl64_error [OF pos] have e: "\<bar>x - ?q\<bar> \<le> ulp64 ?q / 2" and nn: "0 \<le> x"
      by (simp_all add: x_def)
    from e u have "\<bar>x - ?q\<bar> \<le> 1 / 2147483648" by simp
    then have "x - ?q \<le> 1 / 2147483648" "- (1 / 2147483648) \<le> x - ?q"
      by (simp_all only: abs_le_iff) linarith+
    then have "x * 1000000000 - of_int L < 1 / 2" "- (1 / 2) < x * 1000000000 - of_int L"
      by linarith+
    with nn show ?thesis by simp
  qed
  have p: "(10::rat) ^ 9 = 1000000000" by simp
  from main have "of_int L \<le> x * 10 ^ 9 + 1 / 2" "x * 10 ^ 9 + 1 / 2 < of_int L + 1"
    unfolding p by linarith+
  then show "\<lfloor>x * 10 ^ 9 + 1 / 2\<rfloor> = L" by (rule floor_unique)
  from main show "0 \<le> x" by simp
  from assms(2) have "(of_int L :: rat) < 8388608000000000"
    by (metis of_int_less_iff of_int_numeral)
  with main have "x < 1000000000000000000000" by linarith
  then show "x < 10 ^ 21" by simp
qed

lemma Number_exact:
  assumes "0 \<le> L" "L < 9007199254740992"
  shows "Number L = of_int L"
proof (cases "L = 0")
  case True
  then show ?thesis by (simp add: Number_def fl64_def)
next
  case False
  let ?q = "of_int L :: rat"
  from False assms(1) have pos: "0 < ?q" by simp
  from assms(2) have "?q < 9007199254740992"
    by (metis of_int_less_iff of_int_numeral)
  then have "?q < 2 powi 53" by simp
  with pos have "ilog2 ?q < 53" by (rule ilog2_less)
  then have "max (ilog2 ?q) (- 1022) - 52 = - int (nat (52 - max (ilog2 ?q) (- 1022)))"
    by simp
  then obtain j where j: "max (ilog2 ?q) (- 1022) - 52 = - int j" ..
  then have u: "ulp64 ?q = 1 / 2 ^ j"
    by (simp add: ulp64_def power_int_minus_divide)
  then have "?q / ulp64 ?q = of_int (L * 2 ^ j)" by simp
  then have "round_half_even (?q / ulp64 ?q) = L * 2 ^ j"
    by (simp only: round_half_even_of_int)
  with pos u show ?thesis
    by (simp add: Number_def fl64_def)
qed

lemma split_value:
  assumes "j \<le> length m"
  shows "int_of_digits (take (length m - j) m) * 10 ^ j + int_of_digits (drop (length m - j) m)
           = int_of_digits m"
proof -
  have "int_of_digits (take (length m - j) m @ drop (length m - j) m)
      = int_of_digits (take (length m - j) m) * 10 ^ length (drop (length m - j) m)
        + int_of_digits (drop (length m - j) m)"
    by (rule int_of_digits_append)
  with assms show ?thesis by simp
qed

lemma int_of_digits_padded:
  "int_of_digits (replicate k CHR ''0'' @ m) = int_of_digits m"
  by (simp add: int_of_digits_append int_of_digits_zeros)

subsection \<open>The formatters\<close>

lemma zeros_all_digit: "list_all is_digit (replicate k CHR ''0'')"
  by (simp add: list_all_iff is_digit_def)

lemma fixed_digits:
  fixes f :: nat
  assumes "0 \<le> n"
  defines "m \<equiv> (if length (digits n) \<le> f
                  then replicate (f + 1 - length (digits n)) CHR ''0'' @ digits n else digits n)"
    and "k \<equiv> (if length (digits n) \<le> f then f + 1 else length (digits n))"
  shows "take (k - f) m \<noteq> []" and "list_all is_digit (take (k - f) m)"
    and "list_all is_digit (drop (k - f) m)" and "length (drop (k - f) m) = f"
    and "int_of_digits (take (k - f) m) * 10 ^ f + int_of_digits (drop (k - f) m) = n"
proof -
  have k: "k = length m" "f < k"
    by (auto simp: k_def m_def)
  have dig: "list_all is_digit m"
    by (simp add: m_def digits_all_digit zeros_all_digit)
  from k show "take (k - f) m \<noteq> []" by auto
  from dig show "list_all is_digit (take (k - f) m)" "list_all is_digit (drop (k - f) m)"
    by (auto simp: list_all_iff dest: in_set_takeD in_set_dropD)
  from k show "length (drop (k - f) m) = f" by simp
  have "int_of_digits m = n"
    using assms(1) by (simp add: m_def int_of_digits_padded int_of_digits_digits)
  with split_value [of f m] k
  show "int_of_digits (take (k - f) m) * 10 ^ f + int_of_digits (drop (k - f) m) = n"
    by simp
qed

lemma toFixed_nonneg:
  fixes f :: nat
  assumes "0 \<le> x" "x < 10 ^ 21" "f \<noteq> 0"
  defines "n \<equiv> \<lfloor>x * 10 ^ f + 1 / 2\<rfloor>"
  defines "m \<equiv> (if length (digits n) \<le> f
                  then replicate (f + 1 - length (digits n)) CHR ''0'' @ digits n else digits n)"
    and "k \<equiv> (if length (digits n) \<le> f then f + 1 else length (digits n))"
  shows "toFixed ToString x f = take (k - f) m @ ''.'' @ drop (k - f) m"
  using assms(1-3) by (simp add: toFixed_def Let_def n_def m_def k_def)

text \<open>The number a rendering with integer digits \<open>a\<close> and \<open>f\<close> fraction digits \<open>b\<close> denotes.\<close>

lemma fixed_point_value:
  assumes "int_of_digits a * 10 ^ f + int_of_digits b = n"
  shows "(of_int (int_of_digits a) :: rat) + of_int (int_of_digits b) / 10 ^ f = of_int n / 10 ^ f"
proof -
  have "(of_int n :: rat) = of_int (int_of_digits a) * 10 ^ f + of_int (int_of_digits b)"
    by (simp add: assms [symmetric])
  then show ?thesis by (simp add: add_divide_distrib)
qed

lemma formatSol_exact:
  fixes ToString :: "rat \<Rightarrow> string"
  assumes "0 \<le> L" "L < 8388608000000000"
  defines "out \<equiv> formatSol ToString (of_int L)"
  shows "decimal_value out = Some (of_int L / 10 ^ 9)"
    and "fraction_digits out \<le> 9"
    and "replace_trailing_zeros (fraction_part out) = fraction_part out"
    and "out \<noteq> []" and "last out \<noteq> CHR ''.''"
    and "takeWhile is_digit out = digits (L div 10 ^ 9)"
proof -
  define x where "x = fl64 (of_int L / 1000000000)"
  note fl = fl64_lamports [OF assms(1,2), folded x_def]
  define m where "m = (if length (digits L) \<le> 9
      then replicate (9 + 1 - length (digits L)) CHR ''0'' @ digits L else digits L)"
  define k where "k = (if length (digits L) \<le> 9 then 9 + 1 else length (digits L))"
  define a where "a = take (k - 9) m"
  define b where "b = drop (k - 9) m"
  have "toFixed ToString x 9 = a @ ''.'' @ b"
    using toFixed_nonneg [OF fl(2,3), of 9 ToString] fl(1)
    by (simp add: a_def b_def m_def k_def)
  then have out: "out = replace_trailing_dot (replace_trailing_zeros (a @ ''.'' @ b))"
    by (simp add: out_def formatSol_def number_div_def LAMPORTS_PER_SOL_def x_def)
  note fd = fixed_digits [OF assms(1), of 9, folded m_def k_def, folded a_def b_def]
  have out': "out = a @ (if replace_trailing_zeros b = [] then [] else ''.'' @ replace_trailing_zeros b)"
    unfolding out using fd(3) by (rule trim_fixed)
  note tv = trimmed_value [OF fd(1,2,3), folded out']
  from tv(1) fd(4) fixed_point_value [OF fd(5)]
  show "decimal_value out = Some (of_int L / 10 ^ 9)" by simp
  from tv(2) fd(4) rtz_length [of b] show "fraction_digits out \<le> 9"
    by (simp add: fraction_digits_def)
  from tv(2) show "replace_trailing_zeros (fraction_part out) = fraction_part out"
    by (simp add: rtz_idem)
  from tv(3,4) show "out \<noteq> []" and "last out \<noteq> CHR ''.''" .
  have "a = digits (L div 10 ^ 9)"
    unfolding a_def m_def k_def using assms(1) by (intro fixed_integer_part) simp_all
  with tv(5) show "takeWhile is_digit out = digits (L div 10 ^ 9)" by simp
qed

lemma formatEther_exact:
  assumes "0 \<le> B"
  defines "out \<equiv> formatEther B"
  shows "decimal_value out = Some (of_int B / 10 ^ 18)"
    and "fraction_digits out \<le> 18"
    and "replace_trailing_zeros (fraction_part out) = fraction_part out"
    and "takeWhile is_digit out = digits (B div 10 ^ 18)"
proof -
  define m where "m = replicate (18 - length (digits B)) CHR ''0'' @ digits B"
  define a where "a = take (length m - 18) m"
  define b where "b = drop (length m - 18) m"
  define a' where "a' = (if a = [] then ''0'' else a)"
  have len: "18 \<le> length m" by (simp add: m_def)
  have dig: "list_all is_digit m" by (simp add: m_def digits_all_digit zeros_all_digit)
  then have da: "list_all is_digit a" and db: "list_all is_digit b"
    by (auto simp: a_def b_def list_all_iff dest: in_set_takeD in_set_dropD)
  then have da': "list_all is_digit a'" and ne: "a' \<noteq> []"
    by (simp_all add: a'_def is_digit_def)
  have va: "int_of_digits a' = int_of_digits a"
    by (simp add: a'_def int_of_digits_def digit_val_def)
  have lb: "length b = 18" using len by (simp add: b_def)
  have "int_of_digits m = B"
    using assms(1) by (simp add: m_def int_of_digits_padded int_of_digits_digits)
  with split_value [OF len] have sv: "int_of_digits a' * 10 ^ 18 + int_of_digits b = B"
    by (simp add: a_def b_def va)
  have "formatEther B = (if B < 0 then ''-'' else '''')
      @ a' @ (if replace_trailing_zeros b = [] then '''' else ''.'' @ replace_trailing_zeros b)"
    unfolding formatEther_def Let_def a'_def a_def b_def m_def
    using assms(1) by (simp only: abs_of_nonneg)
  with assms(1)
  have out: "out = a' @ (if replace_trailing_zeros b = [] then [] else ''.'' @ replace_trailing_zeros b)"
    by (simp add: out_def)
  note tv = trimmed_value [OF ne da' db, folded out]
  from tv(1) lb fixed_point_value [OF sv]
  show "decimal_value out = Some (of_int B / 10 ^ 18)" by simp
  from tv(2) lb rtz_length [of b] show "fraction_digits out \<le> 18"
    by (simp add: fraction_digits_def)
  from tv(2) show "replace_trailing_zeros (fraction_part out) = fraction_part out"
    by (simp add: rtz_idem)
  have "a' = digits (B div 10 ^ 18)"
    unfolding a'_def a_def m_def using assms(1) by (intro padded_integer_part) simp_all
  with tv(5) show "takeWhile is_digit out = digits (B div 10 ^ 18)" by simp
qed

section \<open>The hook as a state machine\<close>

subsection \<open>What each operation leaves alone\<close>

lemma perform_frame:
  "address (perform a s) = address s"
  "client (perform a s) = client s"
  "poll (perform a s) = poll s"
  "memo (perform a s) = memo s"
  "mounted (perform a s) = mounted s"
  "cleanup (perform a s) = cleanup s"
  "timers (perform a s) = timers s"
  "next_timer (perform a s) = next_timer s"
  "now (perform a s) = now s"
  "requests (perform a s) = requests s"
  "pending (perform a s) = pending s"
  "settled (perform a s) = settled s"
  by (cases a; simp)+

lemma fold_perform_frame:
  "address (fold perform as s) = address s"
  "client (fold perform as s) = client s"
  "poll (fold perform as s) = poll s"
  "memo (fold perform as s) = memo s"
  "mounted (fold perform as s) = mounted s"
  "cleanup (fold perform as s) = cleanup s"
  "timers (fold perform as s) = timers s"
  "next_timer (fold perform as s) = next_timer s"
  "now (fold perform as s) = now s"
  "requests (fold perform as s) = requests s"
  "pending (fold perform as s) = pending s"
  "settled (fold perform as s) = settled s"
  by (induction as arbitrary: s; simp add: perform_frame)+

lemma fold_perform_unmounted:
  "\<not> mounted s \<Longrightarrow> balance (fold perform as s) = balance s"
proof (induction as arbitrary: s)
  case Nil
  show ?case by simp
next
  case (Cons a as)
  from Cons.prems have "\<not> mounted (perform a s)" by (simp add: perform_frame)
  then have "balance (fold perform as (perform a s)) = balance (perform a s)"
    by (rule Cons.IH)
  moreover from Cons.prems have "balance (perform a s) = balance s" by (cases a) simp_all
  ultimately show ?case by simp
qed

lemma use_memo_frame:
  "address (use_memo f s) = address s"
  "client (use_memo f s) = client s"
  "poll (use_memo f s) = poll s"
  "balance (use_memo f s) = balance s"
  "mounted (use_memo f s) = mounted s"
  "cleanup (use_memo f s) = cleanup s"
  "timers (use_memo f s) = timers s"
  "next_timer (use_memo f s) = next_timer s"
  "now (use_memo f s) = now s"
  "requests (use_memo f s) = requests s"
  "pending (use_memo f s) = pending s"
  "console (use_memo f s) = console s"
  "settled (use_memo f s) = settled s"
  by (simp_all add: use_memo_def)

lemma getBalance_frame:
  "address (getBalance K a c origin s) = address s"
  "client (getBalance K a c origin s) = client s"
  "poll (getBalance K a c origin s) = poll s"
  "memo (getBalance K a c origin s) = memo s"
  "mounted (getBalance K a c origin s) = mounted s"
  "cleanup (getBalance K a c origin s) = cleanup s"
  "timers (getBalance K a c origin s) = timers s"
  "next_timer (getBalance K a c origin s) = next_timer s"
  "now (getBalance K a c origin s) = now s"
  by (simp_all add: getBalance_def Let_def fold_perform_frame split: option.split)

lemma getBalance_requests:
  "requests (getBalance K a c origin s) =
     (if truthy a \<and> throws K (the a) = None
      then requests s @ [\<lparr>rq_address = the a, rq_client = c, rq_time = now s, rq_origin = origin\<rparr>]
      else requests s)"
  "pending (getBalance K a c origin s) =
     (if truthy a \<and> throws K (the a) = None then pending s @ [length (requests s)]
      else pending s)"
  by (simp_all add: getBalance_def Let_def fold_perform_frame split: option.split)

lemma getBalance_accepted:
  assumes "throws K (the a) = None"
  shows "balance (getBalance K a c origin s) = balance s"
    and "console (getBalance K a c origin s) = console s"
    and "settled (getBalance K a c origin s) = settled s"
  using assms by (simp_all add: getBalance_def)

lemma getBalance_falsy: "\<not> truthy a \<Longrightarrow> getBalance K a c origin s = s"
  by (simp add: getBalance_def)

lemma getBalance_refused:
  assumes "truthy a" "throws K (the a) = Some e"
  shows "getBalance K a c origin s
    = (fold perform (fst (after_await K (Rejected e))) s)
        \<lparr>settled := settled s @ [(None, snd (after_await K (Rejected e)))]\<rparr>"
  using assms by (simp add: getBalance_def Let_def fold_perform_frame)

lemma getBalance_unmounted:
  "\<not> mounted s \<Longrightarrow> balance (getBalance K a c origin s) = balance s"
  by (simp add: getBalance_def Let_def fold_perform_unmounted split: option.split)

lemma fold_getBalance_frame:
  "address (fold (\<lambda>i. getBalance K (tm_address i) (tm_client i) origin) ts s) = address s"
  "client (fold (\<lambda>i. getBalance K (tm_address i) (tm_client i) origin) ts s) = client s"
  "poll (fold (\<lambda>i. getBalance K (tm_address i) (tm_client i) origin) ts s) = poll s"
  "memo (fold (\<lambda>i. getBalance K (tm_address i) (tm_client i) origin) ts s) = memo s"
  "mounted (fold (\<lambda>i. getBalance K (tm_address i) (tm_client i) origin) ts s) = mounted s"
  "cleanup (fold (\<lambda>i. getBalance K (tm_address i) (tm_client i) origin) ts s) = cleanup s"
  "timers (fold (\<lambda>i. getBalance K (tm_address i) (tm_client i) origin) ts s) = timers s"
  "next_timer (fold (\<lambda>i. getBalance K (tm_address i) (tm_client i) origin) ts s) = next_timer s"
  "now (fold (\<lambda>i. getBalance K (tm_address i) (tm_client i) origin) ts s) = now s"
  by (induction ts arbitrary: s; simp add: getBalance_frame)+

lemma settle_frame:
  "address (settle k i r s) = address s"
  "client (settle k i r s) = client s"
  "poll (settle k i r s) = poll s"
  "memo (settle k i r s) = memo s"
  "mounted (settle k i r s) = mounted s"
  "cleanup (settle k i r s) = cleanup s"
  "timers (settle k i r s) = timers s"
  "next_timer (settle k i r s) = next_timer s"
  "now (settle k i r s) = now s"
  "requests (settle k i r s) = requests s"
  by (simp_all add: settle_def Let_def fold_perform_frame)

lemma settle_not_pending: "i \<notin> set (pending s) \<Longrightarrow> settle k i r s = s"
  by (simp add: settle_def)

lemma settle_unmounted: "\<not> mounted s \<Longrightarrow> balance (settle k i r s) = balance s"
  by (simp add: settle_def Let_def fold_perform_unmounted)

lemma refresh_frame:
  "address (refresh K s) = address s" "client (refresh K s) = client s"
  "poll (refresh K s) = poll s" "memo (refresh K s) = memo s"
  "mounted (refresh K s) = mounted s"
  "cleanup (refresh K s) = cleanup s" "timers (refresh K s) = timers s"
  "next_timer (refresh K s) = next_timer s" "now (refresh K s) = now s"
  by (simp_all add: refresh_def getBalance_frame)

lemma tick_frame:
  "address (tick K s) = address s" "client (tick K s) = client s" "poll (tick K s) = poll s"
  "memo (tick K s) = memo s" "mounted (tick K s) = mounted s"
  "cleanup (tick K s) = cleanup s" "next_timer (tick K s) = next_timer s"
  "now (tick K s) = now s + 1"
  by (simp_all add: tick_def Let_def fold_getBalance_frame)

lemma tick_timers:
  "timers (tick K s) =
     map (\<lambda>i. if tm_due i = now s + 1 then i\<lparr>tm_due := now s + 1 + 500\<rparr> else i) (timers s)"
  by (simp add: tick_def Let_def fold_getBalance_frame)

lemma tick_no_timers: "timers s = [] \<Longrightarrow> tick K s = s\<lparr>now := now s + 1\<rparr>"
  by (simp add: tick_def Let_def)

lemma run_cleanup_frame:
  "address (run_cleanup s) = address s" "client (run_cleanup s) = client s"
  "poll (run_cleanup s) = poll s" "balance (run_cleanup s) = balance s"
  "memo (run_cleanup s) = memo s"
  "mounted (run_cleanup s) = mounted s" "cleanup (run_cleanup s) = None"
  "next_timer (run_cleanup s) = next_timer s" "now (run_cleanup s) = now s"
  "requests (run_cleanup s) = requests s" "pending (run_cleanup s) = pending s"
  "console (run_cleanup s) = console s" "settled (run_cleanup s) = settled s"
  by (simp_all add: run_cleanup_def split: option.split)

lemma run_effect_frame:
  "address (run_effect K s) = address s" "client (run_effect K s) = client s"
  "poll (run_effect K s) = poll s" "memo (run_effect K s) = memo s"
  "mounted (run_effect K s) = mounted s" "now (run_effect K s) = now s"
  by (simp_all add: run_effect_def Let_def getBalance_frame)

lemma run_effect_off: "\<not> poll s \<Longrightarrow> run_effect K s = s\<lparr>cleanup := None\<rparr>"
  by (simp add: run_effect_def)

lemma render_frame:
  "memo (render K p s) = memo s" "mounted (render K p s) = mounted s"
  "now (render K p s) = now s"
  by (simp_all add: render_def Let_def run_effect_frame run_cleanup_frame)

lemma unmount_frame:
  "address (unmount s) = address s" "client (unmount s) = client s"
  "poll (unmount s) = poll s" "balance (unmount s) = balance s"
  "memo (unmount s) = memo s"
  "mounted (unmount s) = False" "now (unmount s) = now s"
  "requests (unmount s) = requests s" "pending (unmount s) = pending s"
  "console (unmount s) = console s" "settled (unmount s) = settled s"
  by (simp_all add: unmount_def run_cleanup_frame)

lemma mount_frame:
  "address (mount K p t0) = p_address p" "client (mount K p t0) = p_client p"
  "poll (mount K p t0) = poll_of p" "mounted (mount K p t0)" "now (mount K p t0) = t0"
  by (simp_all add: mount_def use_memo_frame run_effect_frame)

lemma run_Nil: "run K [] s = s"
  by (simp add: run_def)

lemma run_snoc: "run K (es @ [e]) s = step K (run K es s) e"
  by (simp add: run_def)

lemma run_Cons: "run K (e # es) s = run K es (step K s e)"
  by (simp add: run_def)

lemma variant_simps:
  "throws evm = Map.empty" "after_await evm = evm_settled" "formatter evm = formatEther"
  "throws (solana PublicKey ToString) = PublicKey"
  "after_await (solana PublicKey ToString) = sol_settled"
  "formatter (solana PublicKey ToString) = (\<lambda>b. formatSol ToString (Number b))"
  by (simp_all add: evm_def solana_def)

subsection \<open>The interval\<close>

lemma scheduled_use_memo: "scheduled (use_memo f s) = scheduled s"
  by (simp add: scheduled_def use_memo_frame cong: option.case_cong)

lemma scheduled_run_effect:
  assumes "cleanup s = None" "timers s = []" "mounted s"
  shows "scheduled (run_effect K s)"
  using assms by (simp add: scheduled_def run_effect_def Let_def getBalance_frame)

lemma scheduled_run_cleanup:
  assumes "scheduled s"
  shows "timers (run_cleanup s) = []"
proof (cases "cleanup s")
  case None
  with assms show ?thesis by (simp add: scheduled_def run_cleanup_def)
next
  case (Some i)
  with assms have "timers s = [\<lparr>tm_id = i, tm_address = address s, tm_client = client s,
      tm_due = tm_due (hd (timers s))\<rparr>]"
    by (simp add: scheduled_def)
  then have "filter (\<lambda>t. tm_id t \<noteq> i) (timers s) = []"
    by (metis (mono_tags, lifting) filter.simps(1,2) timer.select_convs(1))
  with Some show ?thesis by (simp add: run_cleanup_def)
qed

lemma scheduled_mount: "scheduled (mount K p t0)"
  unfolding mount_def scheduled_use_memo by (rule scheduled_run_effect) simp_all

lemma scheduled_render:
  assumes "scheduled s"
  shows "scheduled (render K p s)"
proof (cases "mounted s")
  case False
  with assms show ?thesis by (simp add: render_def)
next
  case True
  let ?s1 = "s\<lparr>address := p_address p, client := p_client p, poll := poll_of p\<rparr>"
  show ?thesis
  proof (cases "p_address p \<noteq> address s \<or> p_client p \<noteq> client s \<or> poll_of p \<noteq> poll s")
    case False
    then have "?s1 = s" by simp
    with True False assms show ?thesis by (simp add: render_def Let_def)
  next
    case changed: True
    have "scheduled (run_effect K (run_cleanup ?s1))"
    proof (rule scheduled_run_effect)
      show "cleanup (run_cleanup ?s1) = None" by (simp add: run_cleanup_frame)
      have "timers (run_cleanup ?s1) = timers (run_cleanup s)"
        by (simp add: run_cleanup_def split: option.split)
      with assms show "timers (run_cleanup ?s1) = []" by (simp add: scheduled_run_cleanup)
      from True show "mounted (run_cleanup ?s1)" by (simp add: run_cleanup_frame)
    qed
    with True changed show ?thesis by (simp add: render_def Let_def)
  qed
qed

lemma scheduled_unmount:
  assumes "scheduled s"
  shows "scheduled (unmount s)" and "timers (unmount s) = []"
proof -
  show t: "timers (unmount s) = []"
  proof (cases "mounted s")
    case True
    with assms show ?thesis by (simp add: unmount_def scheduled_run_cleanup)
  next
    case False
    with assms show ?thesis by (auto simp: unmount_def scheduled_def split: option.splits)
  qed
  have "cleanup (unmount s) = None"
    using assms by (auto simp: unmount_def run_cleanup_frame scheduled_def split: option.splits)
  with t show "scheduled (unmount s)" by (simp add: scheduled_def unmount_frame)
qed

lemma scheduled_tick:
  assumes "scheduled s"
  shows "scheduled (tick K s)"
proof (cases "cleanup s")
  case None
  with assms show ?thesis by (simp add: scheduled_def tick_frame tick_timers)
next
  case (Some i)
  with assms obtain d where t: "timers s = [\<lparr>tm_id = i, tm_address = address s,
      tm_client = client s, tm_due = d\<rparr>]" and d: "now s < d" "d \<le> now s + 500"
    and mp: "mounted s" "poll s"
    by (auto simp: scheduled_def)
  from t d mp Some show ?thesis
    by (auto simp: scheduled_def tick_frame tick_timers)
qed

lemma scheduled_refresh: "scheduled s \<Longrightarrow> scheduled (refresh K s)"
  by (simp add: scheduled_def refresh_frame cong: option.case_cong)

lemma scheduled_settle: "scheduled s \<Longrightarrow> scheduled (settle k i r s)"
  by (simp add: scheduled_def settle_frame cong: option.case_cong)

lemma scheduled_step: "scheduled s \<Longrightarrow> scheduled (step K s e)"
  unfolding step_def scheduled_use_memo
  by (cases e)
    (simp_all add: scheduled_render scheduled_unmount scheduled_tick scheduled_refresh
      scheduled_settle)

lemma scheduled_run: "scheduled s \<Longrightarrow> scheduled (run K es s)"
  by (induction es arbitrary: s) (simp_all add: run_Nil run_Cons scheduled_step)

lemma scheduled_timers:
  assumes "scheduled s"
  shows "length (timers s) \<le> 1" and "\<not> (mounted s \<and> poll s) \<Longrightarrow> timers s = []"
proof -
  show "length (timers s) \<le> 1"
  proof (cases "cleanup s")
    case None
    with assms show ?thesis by (simp add: scheduled_def)
  next
    case (Some i)
    with assms have "timers s = [\<lparr>tm_id = i, tm_address = address s, tm_client = client s,
        tm_due = tm_due (hd (timers s))\<rparr>]"
      by (simp add: scheduled_def)
    then have "length (timers s) = 1" by (metis length_Cons list.size(3) One_nat_def)
    then show ?thesis by simp
  qed
  show "timers s = []" if "\<not> (mounted s \<and> poll s)"
    using assms that by (auto simp: scheduled_def split: option.splits)
qed

lemma render_poll_off:
  assumes "scheduled s" "\<not> poll_of p"
  shows "timers (render K p s) = []"
proof -
  have "poll (render K p s) = poll_of p \<or> \<not> mounted (render K p s)"
    by (simp add: render_def Let_def run_effect_frame run_cleanup_frame)
  with assms(2) have "\<not> (mounted (render K p s) \<and> poll (render K p s))" by auto
  with scheduled_render [OF assms(1)] show ?thesis by (rule scheduled_timers(2))
qed

lemma render_pending: "set (pending s) \<subseteq> set (pending (render K p s))"
  by (auto simp: render_def Let_def run_effect_def run_cleanup_frame getBalance_requests)

subsection \<open>The polling schedule\<close>

lemma render_same:
  assumes "p_address q = address s" "p_client q = client s" "poll_of q = poll s"
  shows "render K q s = s"
  using assms by (simp add: render_def Let_def)

lemma timed_fetches_frame:
  "requests s' = requests s \<Longrightarrow> timed_fetches s' = timed_fetches s"
  by (simp add: timed_fetches_def)

lemma timed_fetches_use_memo: "timed_fetches (use_memo f s) = timed_fetches s"
  by (simp add: timed_fetches_def use_memo_frame)

lemma timed_fetches_refresh: "timed_fetches (refresh K s) = timed_fetches s"
  by (simp add: timed_fetches_def refresh_def getBalance_requests)

lemma timed_fetches_settle: "timed_fetches (settle k i r s) = timed_fetches s"
  by (simp add: timed_fetches_def settle_frame)

lemma tick_single:
  assumes "timers s = [\<lparr>tm_id = i, tm_address = a, tm_client = c, tm_due = d\<rparr>]" "truthy a"
    "throws K (the a) = None"
  shows "timers (tick K s) = [\<lparr>tm_id = i, tm_address = a, tm_client = c,
           tm_due = (if d = now s + 1 then now s + 1 + 500 else d)\<rparr>]"
    and "timed_fetches (tick K s)
      = (if d = now s + 1 then timed_fetches s @ [now s + 1] else timed_fetches s)"
    and "requests (tick K s) = (if d = now s + 1
           then requests s @ [\<lparr>rq_address = the a, rq_client = c, rq_time = now s + 1, rq_origin = FromTimer\<rparr>]
           else requests s)"
  using assms by (simp_all add: tick_def Let_def timed_fetches_def getBalance_requests getBalance_frame)

lemma mount_polling:
  assumes "truthy (p_address p)" "poll_of p" "throws K (the (p_address p)) = None"
  shows "timers (mount K p t0) = [\<lparr>tm_id = 0, tm_address = p_address p, tm_client = p_client p,
           tm_due = t0 + 500\<rparr>]"
    and "requests (mount K p t0) = [\<lparr>rq_address = the (p_address p), rq_client = p_client p,
           rq_time = t0, rq_origin = FromEffect\<rparr>]"
  using assms
  by (simp_all add: mount_def use_memo_frame run_effect_def Let_def getBalance_frame
      getBalance_requests)

lemma next_tick:
  fixes n t0 :: nat
  shows "Suc n mod 500 = 0 \<Longrightarrow> t0 + 500 * (n div 500 + 1) = t0 + n + 1"
    and "Suc n mod 500 \<noteq> 0 \<Longrightarrow> t0 + 500 * (n div 500 + 1) \<noteq> t0 + n + 1"
    and "Suc n mod 500 = 0 \<Longrightarrow> Suc n div 500 = Suc (n div 500)"
    and "Suc n mod 500 \<noteq> 0 \<Longrightarrow> Suc n div 500 = n div 500"
    and "Suc n mod 500 = 0 \<Longrightarrow> t0 + n + 1 + 500 = t0 + 500 * (Suc (n div 500) + 1)"
proof -
  have dv: "Suc n div 500 = (if Suc n mod 500 = 0 then Suc (n div 500) else n div 500)"
    by (rule div_Suc)
  have split: "Suc n = 500 * (Suc n div 500) + Suc n mod 500"
    by (simp only: mult_div_mod_eq)
  show c: "Suc n div 500 = Suc (n div 500)" if "Suc n mod 500 = 0"
    using dv that by simp
  show "Suc n div 500 = n div 500" if "Suc n mod 500 \<noteq> 0"
    using dv that by simp
  show a: "t0 + 500 * (n div 500 + 1) = t0 + n + 1" if "Suc n mod 500 = 0"
  proof -
    from split that c [OF that] have "Suc n = 500 * Suc (n div 500)" by simp
    then show ?thesis by simp
  qed
  show "t0 + 500 * (n div 500 + 1) \<noteq> t0 + n + 1" if "Suc n mod 500 \<noteq> 0"
  proof
    assume "t0 + 500 * (n div 500 + 1) = t0 + n + 1"
    then have "Suc n = 500 * (n div 500 + 1)" by simp
    then have "Suc n mod 500 = 0" by (simp only: mod_mult_self1_is_0)
    with that show False by simp
  qed
  show "t0 + n + 1 + 500 = t0 + 500 * (Suc (n div 500) + 1)" if "Suc n mod 500 = 0"
    using a [OF that] by simp
qed

lemma elapsed_snoc: "elapsed (es @ [e]) = (if e = Tick then Suc (elapsed es) else elapsed es)"
  by (simp add: elapsed_def)

lemma polling_from_effect:
  fixes K :: "'v variant"
  assumes a: "truthy (address s0)" and ok: "throws K (the (address s0)) = None"
    and po: "poll s0" and mo: "mounted s0" and em: "timers s0 = []"
    and keep: "list_all (keeps \<lparr>p_address = address s0, p_client = client s0, p_poll = Some True\<rparr>) es"
  defines "s \<equiv> run K es (use_memo (formatter K) (run_effect K s0))"
  shows "mounted s \<and> poll s \<and> address s = address s0 \<and> client s = client s0
    \<and> now s = now s0 + elapsed es
    \<and> timers s = [\<lparr>tm_id = next_timer s0, tm_address = address s0, tm_client = client s0,
                     tm_due = now s0 + 500 * (elapsed es div 500 + 1)\<rparr>]
    \<and> timed_fetches s
        = timed_fetches s0 @ map (\<lambda>j. now s0 + 500 * j) [0..<Suc (elapsed es div 500)]"
  using keep unfolding s_def
proof (induction es rule: rev_induct)
  case Nil
  show ?case
    using a ok po mo em
    by (simp add: run_Nil elapsed_def use_memo_frame timed_fetches_use_memo run_effect_def
        Let_def getBalance_frame)
      (simp add: timed_fetches_def getBalance_requests)
next
  case (snoc e es)
  let ?p = "\<lparr>p_address = address s0, p_client = client s0, p_poll = Some True\<rparr>"
  let ?s = "run K es (use_memo (formatter K) (run_effect K s0))"
  let ?n = "elapsed es"
  let ?t0 = "now s0"
  from snoc.prems have keep: "list_all (keeps ?p) es" and e: "keeps ?p e" by simp_all
  note ih = snoc.IH [OF keep]
  from ih have m: "mounted ?s" "poll ?s" "address ?s = address s0" "client ?s = client s0"
    and now: "now ?s = ?t0 + ?n"
    and tm: "timers ?s = [\<lparr>tm_id = next_timer s0, tm_address = address s0, tm_client = client s0,
        tm_due = ?t0 + 500 * (?n div 500 + 1)\<rparr>]"
    and tf: "timed_fetches ?s
        = timed_fetches s0 @ map (\<lambda>j. ?t0 + 500 * j) [0..<Suc (?n div 500)]"
    by simp_all
  note st = run_snoc step_def use_memo_frame timed_fetches_use_memo
  show ?case
  proof (cases e)
    case (Render q)
    with e m have "render K q ?s = ?s" by (intro render_same) (simp_all add: poll_of_def)
    with Render ih show ?thesis by (simp add: st elapsed_snoc)
  next
    case Unmount
    with e show ?thesis by simp
  next
    case Tick
    note ts = tick_single [OF tm a ok]
    have frame: "mounted (tick K ?s)" "poll (tick K ?s)" "address (tick K ?s) = address s0"
      "client (tick K ?s) = client s0" "now (tick K ?s) = ?t0 + Suc ?n"
      using m now by (simp_all add: tick_frame)
    show ?thesis
    proof (cases "Suc ?n mod 500 = 0")
      case True
      note nt = next_tick(1,3,5) [OF True]
      have due: "?t0 + 500 * (?n div 500 + 1) = now ?s + 1"
        using nt(1) [of ?t0] now by simp
      have "timers (tick K ?s) = [\<lparr>tm_id = next_timer s0, tm_address = address s0,
          tm_client = client s0, tm_due = ?t0 + 500 * (Suc ?n div 500 + 1)\<rparr>]"
        unfolding ts(1) nt(2) using due nt(3) [of ?t0] now by simp
      moreover have "timed_fetches (tick K ?s)
          = timed_fetches s0 @ map (\<lambda>j. ?t0 + 500 * j) [0..<Suc (Suc ?n div 500)]"
        unfolding ts(2) nt(2) tf using due now by simp
      ultimately show ?thesis
        using Tick frame by (simp add: st elapsed_snoc)
    next
      case False
      note nt = next_tick(2,4) [OF False]
      have due: "?t0 + 500 * (?n div 500 + 1) \<noteq> now ?s + 1"
        using nt(1) [of ?t0] now by simp
      have "timers (tick K ?s) = [\<lparr>tm_id = next_timer s0, tm_address = address s0,
          tm_client = client s0, tm_due = ?t0 + 500 * (Suc ?n div 500 + 1)\<rparr>]"
        unfolding ts(1) nt(2) using due by simp
      moreover have "timed_fetches (tick K ?s)
          = timed_fetches s0 @ map (\<lambda>j. ?t0 + 500 * j) [0..<Suc (Suc ?n div 500)]"
        unfolding ts(2) nt(2) tf using due by simp
      ultimately show ?thesis
        using Tick frame by (simp add: st elapsed_snoc)
    qed
  next
    case Refresh
    with ih show ?thesis
      by (simp add: st elapsed_snoc refresh_frame timed_fetches_refresh)
  next
    case (Settle i r)
    with ih show ?thesis
      by (simp add: st elapsed_snoc settle_frame timed_fetches_settle)
  qed
qed

lemma keeps_poll:
  assumes "poll_of p"
  shows "keeps \<lparr>p_address = p_address p, p_client = p_client p, p_poll = Some True\<rparr> = keeps p"
proof
  fix e :: "'a event"
  show "keeps \<lparr>p_address = p_address p, p_client = p_client p, p_poll = Some True\<rparr> e = keeps p e"
    using assms by (cases e) (simp_all add: poll_of_def)
qed

lemma polling_from_mount:
  fixes K :: "'v variant"
  assumes "truthy (p_address p)" "throws K (the (p_address p)) = None" "poll_of p"
    "list_all (keeps p) es"
  shows "timed_fetches (run K es (mount K p t0)) = map (\<lambda>j. t0 + 500 * j) [0..<Suc (elapsed es div 500)]"
    and "now (run K es (mount K p t0)) = t0 + elapsed es"
proof -
  let ?s0 = "\<lparr>address = p_address p, client = p_client p, poll = poll_of p, balance = None,
    memo = (None, None), mounted = True, cleanup = None, timers = [], next_timer = 0, now = t0,
    requests = [], pending = [], console = [], settled = []\<rparr>"
  have keep: "list_all (keeps \<lparr>p_address = address ?s0, p_client = client ?s0, p_poll = Some True\<rparr>) es"
    using assms(4) by (simp add: keeps_poll [OF assms(3)])
  have "truthy (address ?s0)" "throws K (the (address ?s0)) = None" "poll ?s0" "mounted ?s0"
    "timers ?s0 = []"
    using assms(1,2,3) by simp_all
  from polling_from_effect [OF this keep]
  show "timed_fetches (run K es (mount K p t0)) = map (\<lambda>j. t0 + 500 * j) [0..<Suc (elapsed es div 500)]"
    and "now (run K es (mount K p t0)) = t0 + elapsed es"
    by (simp_all add: mount_def timed_fetches_def)
qed

lemma polling_from_render:
  fixes K :: "'v variant"
  assumes "truthy (p_address p)" "throws K (the (p_address p)) = None" "poll_of p"
    "list_all (keeps p) es"
    and "scheduled s" "mounted s"
    and "p_address p \<noteq> address s \<or> p_client p \<noteq> client s \<or> \<not> poll s"
  shows "timed_fetches (run K es (step K s (Render p)))
    = timed_fetches s @ map (\<lambda>j. now s + 500 * j) [0..<Suc (elapsed es div 500)]"
proof -
  let ?s1 = "s\<lparr>address := p_address p, client := p_client p, poll := poll_of p\<rparr>"
  let ?s0 = "run_cleanup ?s1"
  have r: "step K s (Render p) = use_memo (formatter K) (run_effect K ?s0)"
    using assms(3,6,7) by (auto simp: step_def render_def Let_def)
  have "timers ?s0 = timers (run_cleanup s)"
    by (simp add: run_cleanup_def split: option.split)
  with assms(5) have em: "timers ?s0 = []" by (simp add: scheduled_run_cleanup)
  have f: "address ?s0 = p_address p" "client ?s0 = p_client p" "poll ?s0" "mounted ?s0"
    "now ?s0 = now s" "requests ?s0 = requests s"
    using assms(3,6) by (simp_all add: run_cleanup_frame)
  have keep: "list_all (keeps \<lparr>p_address = address ?s0, p_client = client ?s0, p_poll = Some True\<rparr>) es"
    using assms(4) by (simp add: f keeps_poll [OF assms(3)])
  have "truthy (address ?s0)" "throws K (the (address ?s0)) = None" using assms(1,2) f by simp_all
  from polling_from_effect [OF this f(3,4) em keep] f(5) timed_fetches_frame [OF f(6)]
  show ?thesis by (simp add: r)
qed

subsection \<open>Without an address\<close>

lemma fold_getBalance_falsy:
  "list_all (\<lambda>t. \<not> truthy (tm_address t)) ts \<Longrightarrow>
     fold (\<lambda>i. getBalance K (tm_address i) (tm_client i) origin) ts s = s"
  by (induction ts arbitrary: s) (simp_all add: getBalance_falsy)

lemma idle_use_memo: "idle s \<Longrightarrow> use_memo f s = s"
  by (simp add: idle_def use_memo_def)

lemma idle_run_effect:
  assumes "\<not> truthy (address s)" "timers s = []" "requests s = []" "pending s = []"
    "balance s = None" "memo s = (None, None)"
  shows "idle (run_effect K s)"
  using assms by (simp add: idle_def run_effect_def Let_def getBalance_falsy)

lemma idle_mount:
  assumes "\<not> truthy (p_address p)"
  shows "idle (mount K p t0)"
proof -
  let ?s0 = "\<lparr>address = p_address p, client = p_client p, poll = poll_of p, balance = None,
    memo = (None, None), mounted = True, cleanup = None, timers = [], next_timer = 0, now = t0,
    requests = [], pending = [], console = [], settled = []\<rparr>"
  have i: "idle (run_effect K ?s0)" using assms by (intro idle_run_effect) simp_all
  then have "use_memo (formatter K) (run_effect K ?s0) = run_effect K ?s0"
    by (rule idle_use_memo)
  with i show ?thesis by (simp add: mount_def)
qed

lemma idle_render:
  assumes "idle s" "\<not> truthy (p_address p)"
  shows "idle (render K p s)"
proof -
  let ?s1 = "s\<lparr>address := p_address p, client := p_client p, poll := poll_of p\<rparr>"
  have s1: "idle ?s1" using assms by (simp add: idle_def)
  have "idle (run_cleanup ?s1)"
    using s1 by (auto simp: idle_def run_cleanup_def list_all_iff split: option.splits)
  then have "idle (run_effect K (run_cleanup ?s1))"
    by (auto simp: idle_def run_effect_def Let_def getBalance_falsy)
  with s1 assms(1) show ?thesis by (simp add: render_def Let_def)
qed

lemma idle_unmount: "idle s \<Longrightarrow> idle (unmount s)"
  by (auto simp: idle_def unmount_def run_cleanup_def list_all_iff split: option.splits)

lemma idle_tick:
  assumes "idle s"
  shows "idle (tick K s)"
proof -
  let ?t = "now s + 1"
  from assms have "list_all (\<lambda>t. \<not> truthy (tm_address t)) (filter (\<lambda>i. tm_due i = ?t) (timers s))"
    by (simp add: idle_def list_all_iff)
  then have "tick K s = s\<lparr>now := ?t,
      timers := map (\<lambda>i. if tm_due i = ?t then i\<lparr>tm_due := ?t + 500\<rparr> else i) (timers s)\<rparr>"
    by (simp add: tick_def Let_def fold_getBalance_falsy)
  with assms show ?thesis
    by (auto simp: idle_def list_all_iff)
qed

lemma idle_refresh: "idle s \<Longrightarrow> idle (refresh K s)"
  by (simp add: idle_def refresh_def getBalance_falsy)

lemma idle_settle: "idle s \<Longrightarrow> idle (settle k i r s)"
  by (simp add: idle_def settle_not_pending)

lemma idle_handle: "idle s \<Longrightarrow> keeps_no_address e \<Longrightarrow> idle (handle K s e)"
  by (cases e) (simp_all add: idle_render idle_unmount idle_tick idle_refresh idle_settle)

lemma idle_step: "idle s \<Longrightarrow> keeps_no_address e \<Longrightarrow> idle (step K s e)"
  by (simp add: step_def idle_handle idle_use_memo)

lemma idle_run: "idle s \<Longrightarrow> list_all keeps_no_address es \<Longrightarrow> idle (run K es s)"
  by (induction es arbitrary: s) (simp_all add: run_Nil run_Cons idle_step)

subsection \<open>Settlement\<close>

lemma settle_sol_rejected:
  assumes "i \<in> set (pending s)"
  shows "settled (settle sol_settled i (Rejected e) s) = settled s @ [(Some i, Returned)]"
    and "console (settle sol_settled i (Rejected e) s) = console s @ [e]"
    and "balance (settle sol_settled i (Rejected e) s) = (if mounted s then Some 0 else balance s)"
    and "pending (settle sol_settled i (Rejected e) s) = removeAll i (pending s)"
  using assms by (simp_all add: settle_def sol_settled_def)

lemma settle_sol_fulfilled:
  assumes "i \<in> set (pending s)"
  shows "balance (settle sol_settled i (Fulfilled x) s)
      = (if mounted s then Some (if of_int \<lfloor>x\<rfloor> = x then \<lfloor>x\<rfloor> else 0) else balance s)"
    and "console (settle sol_settled i (Fulfilled x) s)
      = (if of_int \<lfloor>x\<rfloor> = x then console s else console s @ [RangeError])"
  using assms by (simp_all add: settle_def sol_settled_def BigInt_def)

lemma settle_evm_rejected:
  assumes "i \<in> set (pending s)"
  shows "settled (settle evm_settled i (Rejected e) s) = settled s @ [(Some i, Threw e)]"
    and "console (settle evm_settled i (Rejected e) s) = console s"
    and "balance (settle evm_settled i (Rejected e) s) = balance s"
    and "pending (settle evm_settled i (Rejected e) s) = removeAll i (pending s)"
  using assms by (simp_all add: settle_def evm_settled_def)

lemma settle_evm_fulfilled:
  assumes "i \<in> set (pending s)" "mounted s"
  shows "balance (settle evm_settled i (Fulfilled v) s) = Some v"
  using assms by (simp add: settle_def evm_settled_def)

lemma getBalance_sol_refused:
  assumes "truthy a" "PublicKey (the a) = Some e"
  shows "requests (getBalance (solana PublicKey ToString) a c origin s) = requests s"
    and "pending (getBalance (solana PublicKey ToString) a c origin s) = pending s"
    and "console (getBalance (solana PublicKey ToString) a c origin s) = console s @ [e]"
    and "balance (getBalance (solana PublicKey ToString) a c origin s)
      = (if mounted s then Some 0 else balance s)"
    and "settled (getBalance (solana PublicKey ToString) a c origin s)
      = settled s @ [(None, Returned)]"
  using assms
  by (simp_all add: getBalance_def variant_simps sol_settled_def Let_def)

lemma refresh_refused:
  assumes "truthy (address s)" "PublicKey (the (address s)) = Some e"
  shows "requests (refresh (solana PublicKey ToString) s) = requests s"
    and "pending (refresh (solana PublicKey ToString) s) = pending s"
    and "console (refresh (solana PublicKey ToString) s) = console s @ [e]"
    and "balance (refresh (solana PublicKey ToString) s) = (if mounted s then Some 0 else balance s)"
    and "settled (refresh (solana PublicKey ToString) s) = settled s @ [(None, Returned)]"
  unfolding refresh_def
  using getBalance_sol_refused [where PublicKey = PublicKey and a = "address s" and e = e,
      OF assms]
  by simp_all

lemma sol_settled_returns: "snd (sol_settled r) = Returned"
  by (simp add: sol_settled_def split: response.split sum.split)

lemma returned_getBalance:
  assumes "\<And>r. snd (after_await K r) = Returned"
    and "list_all (\<lambda>x. snd x = Returned) (settled s)"
  shows "list_all (\<lambda>x. snd x = Returned) (settled (getBalance K a c origin s))"
  using assms by (simp add: getBalance_def Let_def fold_perform_frame split: option.split)

lemma returned_fold_getBalance:
  assumes "\<And>r. snd (after_await K r) = Returned"
  shows "list_all (\<lambda>x. snd x = Returned) (settled s) \<Longrightarrow>
    list_all (\<lambda>x. snd x = Returned)
      (settled (fold (\<lambda>i. getBalance K (tm_address i) (tm_client i) origin) ts s))"
  by (induction ts arbitrary: s) (simp_all add: returned_getBalance [OF assms])

lemma returned_run_effect:
  assumes "\<And>r. snd (after_await K r) = Returned"
    and "list_all (\<lambda>x. snd x = Returned) (settled s)"
  shows "list_all (\<lambda>x. snd x = Returned) (settled (run_effect K s))"
  using returned_getBalance [OF assms, of "address s" "client s" FromEffect] assms(2)
  by (simp add: run_effect_def Let_def)

lemma returned_handle:
  assumes R: "\<And>r. snd (after_await K r) = Returned"
    and s: "list_all (\<lambda>x. snd x = Returned) (settled s)"
  shows "list_all (\<lambda>x. snd x = Returned) (settled (handle K s e))"
proof (cases e)
  case (Render p)
  let ?s1 = "s\<lparr>address := p_address p, client := p_client p, poll := poll_of p\<rparr>"
  from s have "list_all (\<lambda>x. snd x = Returned) (settled (run_cleanup ?s1))"
    by (simp add: run_cleanup_frame)
  from returned_run_effect [OF R this] s Render show ?thesis
    by (simp add: render_def Let_def)
next
  case Unmount
  with s show ?thesis by (simp add: unmount_frame)
next
  case Tick
  from s Tick show ?thesis
    by (simp add: tick_def Let_def returned_fold_getBalance [OF R])
next
  case Refresh
  with s show ?thesis by (simp add: refresh_def returned_getBalance [OF R])
next
  case (Settle i r)
  with s show ?thesis by (simp add: settle_def Let_def fold_perform_frame R)
qed

lemma returned_run:
  assumes R: "\<And>r. snd (after_await K r) = Returned"
  shows "list_all (\<lambda>x. snd x = Returned) (settled s) \<Longrightarrow>
    list_all (\<lambda>x. snd x = Returned) (settled (run K es s))"
  by (induction es arbitrary: s)
    (simp_all add: run_Nil run_Cons step_def use_memo_frame returned_handle [OF R])

lemma returned_mount:
  assumes R: "\<And>r. snd (after_await K r) = Returned"
  shows "list_all (\<lambda>x. snd x = Returned) (settled (mount K p t0))"
  unfolding mount_def use_memo_frame by (rule returned_run_effect [OF R]) simp

subsection \<open>The balance between completed calls\<close>

lemma logged_iff:
  "logged s s' \<longleftrightarrow> (\<exists>xs. settled s' = settled s @ xs \<and> (xs = [] \<longrightarrow> balance s' = balance s))"
proof
  assume l: "logged s s'"
  let ?xs = "drop (length (settled s)) (settled s')"
  from l have "settled s' = settled s @ ?xs"
    by (metis append_take_drop_id logged_def)
  moreover from l have "?xs = [] \<longrightarrow> balance s' = balance s"
    by (simp add: logged_def)
  ultimately show "\<exists>xs. settled s' = settled s @ xs \<and> (xs = [] \<longrightarrow> balance s' = balance s)"
    by blast
next
  assume "\<exists>xs. settled s' = settled s @ xs \<and> (xs = [] \<longrightarrow> balance s' = balance s)"
  then show "logged s s'" by (auto simp: logged_def)
qed

lemma logged_same: "settled s' = settled s \<Longrightarrow> balance s' = balance s \<Longrightarrow> logged s s'"
  by (simp add: logged_def)

lemma logged_more: "settled s' = settled s @ [x] \<Longrightarrow> logged s s'"
  by (simp add: logged_def)

lemma logged_trans: "logged s t \<Longrightarrow> logged t u \<Longrightarrow> logged s u"
  unfolding logged_iff by auto

lemma logged_getBalance: "logged s (getBalance K a c origin s)"
  by (simp add: logged_def getBalance_def Let_def fold_perform_frame split: option.split)

lemma logged_fold_getBalance:
  "logged s (fold (\<lambda>i. getBalance K (tm_address i) (tm_client i) origin) ts s)"
proof (induction ts arbitrary: s)
  case Nil
  show ?case by (simp add: logged_def)
next
  case (Cons t ts)
  have "logged s (getBalance K (tm_address t) (tm_client t) origin s)"
    by (rule logged_getBalance)
  from this Cons [of "getBalance K (tm_address t) (tm_client t) origin s"]
  have "logged s (fold (\<lambda>i. getBalance K (tm_address i) (tm_client i) origin) ts
      (getBalance K (tm_address t) (tm_client t) origin s))"
    by (rule logged_trans)
  then show ?case by simp
qed

lemma logged_run_effect: "logged s (run_effect K s)"
proof (cases "poll s")
  case False
  then show ?thesis by (simp add: run_effect_def logged_def)
next
  case True
  let ?s1 = "getBalance K (address s) (client s) FromEffect s"
  have "logged ?s1 (run_effect K s)"
    using True by (intro logged_same) (simp_all add: run_effect_def Let_def)
  with logged_getBalance [of s K "address s" "client s" FromEffect] show ?thesis
    by (rule logged_trans)
qed

lemma logged_handle: "logged s (handle K s e)"
proof (cases e)
  case (Render p)
  let ?s1 = "s\<lparr>address := p_address p, client := p_client p, poll := poll_of p\<rparr>"
  have "logged s (run_cleanup ?s1)" by (intro logged_same) (simp_all add: run_cleanup_frame)
  then have "logged s (run_effect K (run_cleanup ?s1))"
    using logged_run_effect by (rule logged_trans)
  moreover have "logged s ?s1" "logged s s" by (simp_all add: logged_def)
  ultimately show ?thesis using Render by (simp add: render_def Let_def)
next
  case Unmount
  then show ?thesis by (simp add: logged_same unmount_frame)
next
  case Tick
  define t where "t = now s + 1"
  define s1 where "s1 = s\<lparr>now := t,
    timers := map (\<lambda>i. if tm_due i = t then i\<lparr>tm_due := t + 500\<rparr> else i) (timers s)\<rparr>"
  have "tick K s = fold (\<lambda>i. getBalance K (tm_address i) (tm_client i) FromTimer)
      (filter (\<lambda>i. tm_due i = t) (timers s)) s1"
    by (simp only: tick_def Let_def t_def s1_def)
  moreover have "logged s s1" by (simp add: s1_def logged_def)
  ultimately show ?thesis
    using Tick logged_fold_getBalance [of s1 K FromTimer "filter (\<lambda>i. tm_due i = t) (timers s)"]
    by (auto intro: logged_trans)
next
  case Refresh
  then show ?thesis by (simp add: refresh_def logged_getBalance)
next
  case (Settle i r)
  show ?thesis
  proof (cases "i \<in> set (pending s)")
    case True
    with Settle show ?thesis
      by (simp add: logged_def settle_def Let_def fold_perform_frame)
  next
    case False
    with Settle show ?thesis by (simp add: settle_not_pending logged_def)
  qed
qed

lemma logged_step: "logged s (step K s e)"
proof -
  have "logged (handle K s e) (step K s e)"
    by (simp add: step_def logged_same use_memo_frame)
  with logged_handle show ?thesis by (rule logged_trans)
qed

lemma logged_run: "logged s (run K es s)"
proof (induction es arbitrary: s)
  case Nil
  show ?case by (simp add: run_Nil logged_def)
next
  case (Cons e es)
  from logged_step Cons [of "step K s e"] show ?case
    by (simp add: run_Cons) (rule logged_trans)
qed

lemma balance_between:
  assumes "settled (run K es s) = settled s"
  shows "balance (run K es s) = balance s"
  using logged_run [of s K es] assms by (simp add: logged_def)

subsection \<open>The memo\<close>

lemma memo_current_use_memo:
  assumes "memo_current f s" "memo h = memo s" "\<not> mounted h \<Longrightarrow> balance h = balance s"
  shows "memo_current f (use_memo f h)"
proof (cases "\<not> mounted h \<or> fst (memo h) = balance h")
  case False
  then show ?thesis by (simp add: memo_current_def use_memo_def)
next
  case True
  with assms have "balance h = balance s" by (auto simp: memo_current_def)
  with assms(1,2) True show ?thesis by (simp add: memo_current_def use_memo_def)
qed

lemma memo_current_kept:
  assumes "memo_current f s" "memo s' = memo s" "balance s' = balance s"
  shows "use_memo f s' = s'" and "memo_current f s'"
proof -
  from assms show c: "memo_current f s'" by (simp add: memo_current_def)
  then have "fst (memo s') = balance s'" by (simp add: memo_current_def)
  then show "use_memo f s' = s'" by (simp add: use_memo_def)
qed

lemma fold_getBalance_unmounted:
  "\<not> mounted s \<Longrightarrow>
     balance (fold (\<lambda>i. getBalance K (tm_address i) (tm_client i) origin) ts s) = balance s"
  by (induction ts arbitrary: s) (simp_all add: getBalance_unmounted getBalance_frame)

lemma handle_memo: "memo (handle K s e) = memo s"
  by (cases e) (simp_all add: render_frame unmount_frame tick_frame refresh_frame settle_frame)

lemma handle_unmounted:
  assumes "\<not> mounted (handle K s e)"
  shows "balance (handle K s e) = balance s"
proof (cases e)
  case (Render p)
  with assms show ?thesis by (simp add: render_frame) (simp add: render_def)
next
  case Unmount
  then show ?thesis by (simp add: unmount_frame)
next
  case Tick
  with assms show ?thesis
    by (simp add: tick_frame) (simp add: tick_def Let_def fold_getBalance_unmounted)
next
  case Refresh
  with assms show ?thesis
    by (simp add: refresh_frame) (simp add: refresh_def getBalance_unmounted)
next
  case (Settle i r)
  with assms show ?thesis by (simp add: settle_frame settle_unmounted)
qed

lemma memo_current_step:
  assumes "memo_current (formatter K) s"
  shows "memo_current (formatter K) (step K s e)"
  unfolding step_def using assms handle_memo handle_unmounted by (rule memo_current_use_memo)

lemma memo_current_run:
  "memo_current (formatter K) s \<Longrightarrow> memo_current (formatter K) (run K es s)"
  by (induction es arbitrary: s) (simp_all add: run_Nil run_Cons memo_current_step)

lemma memo_current_mount: "memo_current (formatter K) (mount K p t0)"
  unfolding mount_def
  by (rule memo_current_use_memo [where s = "\<lparr>address = p_address p, client = p_client p,
      poll = poll_of p, balance = None, memo = (None, None), mounted = True, cleanup = None,
      timers = [], next_timer = 0, now = t0, requests = [], pending = [], console = [],
      settled = []\<rparr>"])
    (simp_all add: memo_current_def run_effect_frame)

lemma memo_current_formatted:
  "memo_current f s \<Longrightarrow>
     formattedBalance s = (case balance s of None \<Rightarrow> None | Some b \<Rightarrow> Some (f b))"
  by (simp add: memo_current_def formattedBalance_def)

lemma memo_current_same:
  "memo_current f s \<Longrightarrow> memo_current f s' \<Longrightarrow> balance s' = balance s \<Longrightarrow>
     formattedBalance s' = formattedBalance s"
  by (simp add: memo_current_formatted)

lemma memo_step_kept:
  assumes "memo_current (formatter K) s" "balance (step K s e) = balance s"
  shows "memo (step K s e) = memo s"
proof -
  from assms(2) have "balance (handle K s e) = balance s"
    by (simp add: step_def use_memo_frame)
  from memo_current_kept(1) [OF assms(1) handle_memo this] show ?thesis
    by (simp add: step_def handle_memo)
qed

subsection \<open>The mainnet instance of the screen\<close>

lemma dormant_use_memo: "dormant h \<Longrightarrow> use_memo f h = h"
  by (simp add: dormant_def use_memo_def)

lemma dormant_mount: "dormant (mount K (mainnet_props a) t0)"
  by (simp add: dormant_def mount_def mainnet_props_def poll_of_def run_effect_def use_memo_def)

lemma dormant_render: "dormant h \<Longrightarrow> dormant (render K (mainnet_props a) h)"
  by (simp add: dormant_def render_def Let_def mainnet_props_def poll_of_def run_effect_def
      run_cleanup_def)

lemma dormant_tick: "dormant h \<Longrightarrow> dormant (tick K h)"
  by (simp add: dormant_def tick_def Let_def)

lemma dormant_unmount: "dormant h \<Longrightarrow> dormant (unmount h)"
  by (simp add: dormant_def unmount_def run_cleanup_def)

lemma dormant_settle: "dormant h \<Longrightarrow> dormant (settle k i r h)"
  by (simp add: dormant_def settle_not_pending)

lemma dormant_step:
  assumes "dormant h" "e = Render (mainnet_props a) \<or> e = Tick \<or> e = Unmount \<or> e = Settle i r"
  shows "dormant (step K h e)"
proof -
  from assms have "dormant (handle K h e)"
    by (auto simp: dormant_render dormant_tick dormant_unmount dormant_settle)
  then show ?thesis by (simp add: step_def dormant_use_memo)
qed

lemma step_frame:
  "mounted (step K h e) = (mounted h \<and> e \<noteq> Unmount)"
  "now (step K h e) = (if e = Tick then now h + 1 else now h)"
  by (cases e; simp add: step_def use_memo_frame render_frame unmount_frame tick_frame
      refresh_frame settle_frame)+

lemma step_address:
  "e \<noteq> Unmount \<Longrightarrow> \<forall>p. e \<noteq> Render p \<Longrightarrow>
     address (step K h e) = address h \<and> client (step K h e) = client h"
  by (cases e) (simp_all add: step_def use_memo_frame tick_frame refresh_frame settle_frame)

lemma render_props:
  "mounted h \<Longrightarrow> address (step K h (Render p)) = p_address p
     \<and> client (step K h (Render p)) = p_client p"
  by (simp add: step_def use_memo_frame render_def Let_def run_effect_frame run_cleanup_frame)

lemma screen_step_mainnet:
  assumes "dormant (solana_mainnet s)" "in_sync s" "e \<noteq> OnSuccess FundWalletSolana"
  shows "dormant (solana_mainnet (screen_step PublicKey ToString s e))
    \<and> in_sync (screen_step PublicKey ToString s e)"
proof (cases e)
  case (Auth si ea sa)
  have "in_sync (screen_step PublicKey ToString s e)"
  proof (cases "mounted (solana_mainnet s)")
    case True
    from render_props [OF True, of "solana PublicKey ToString" "mainnet_props sa"] Auth
    show ?thesis by (simp add: in_sync_def mainnet_props_def)
  next
    case False
    with Auth show ?thesis by (simp add: in_sync_def step_frame)
  qed
  with Auth assms(1) show ?thesis by (simp add: dormant_step)
next
  case Elapse
  with assms(1,2) show ?thesis by (simp add: dormant_step in_sync_def step_frame step_address)
next
  case Leave
  with assms(1,2) show ?thesis by (simp add: dormant_step in_sync_def step_frame)
next
  case (EvmSettled n i r)
  with assms(1,2) show ?thesis by (cases n) (simp_all add: in_sync_def)
next
  case (SolanaSettled n i r)
  with assms(1,2) show ?thesis
    by (cases n) (simp_all add: dormant_step in_sync_def step_frame step_address)
next
  case (OnSuccess w)
  with assms show ?thesis by (cases w) (simp_all add: in_sync_def)
qed

lemma run_screen_Nil: "run_screen PublicKey ToString [] s = s"
  by (simp add: run_screen_def)

lemma run_screen_Cons:
  "run_screen PublicKey ToString (e # es) s
     = run_screen PublicKey ToString es (screen_step PublicKey ToString s e)"
  by (simp add: run_screen_def)

lemma run_screen_mainnet:
  assumes "dormant (solana_mainnet s)" "in_sync s" "OnSuccess FundWalletSolana \<notin> set es"
  shows "dormant (solana_mainnet (run_screen PublicKey ToString es s))
    \<and> in_sync (run_screen PublicKey ToString es s)"
  using assms
proof (induction es arbitrary: s)
  case Nil
  then show ?case by (simp add: run_screen_Nil)
next
  case (Cons e es)
  from Cons.prems have "e \<noteq> OnSuccess FundWalletSolana" by auto
  with Cons.prems(1,2) have "dormant (solana_mainnet (screen_step PublicKey ToString s e))
      \<and> in_sync (screen_step PublicKey ToString s e)"
    by (rule screen_step_mainnet)
  with Cons.IH [of "screen_step PublicKey ToString s e"] Cons.prems(3) show ?case
    by (simp add: run_screen_Cons)
qed

lemma SignedInScreen_mainnet:
  "dormant (solana_mainnet (SignedInScreen PublicKey ToString si ea sa t0))"
  "in_sync (SignedInScreen PublicKey ToString si ea sa t0)"
proof -
  show "dormant (solana_mainnet (SignedInScreen PublicKey ToString si ea sa t0))"
    by (simp add: SignedInScreen_def dormant_mount)
  show "in_sync (SignedInScreen PublicKey ToString si ea sa t0)"
    by (simp add: SignedInScreen_def in_sync_def mount_frame mainnet_props_def)
qed

lemma onSuccess_mainnet:
  assumes "dormant (solana_mainnet s)" "in_sync s" "rendered s FundWalletSolana"
    "PublicKey (the (solanaAddress s)) = None"
  shows "requests (solana_mainnet (screen_step PublicKey ToString s (OnSuccess FundWalletSolana)))
    = [\<lparr>rq_address = the (solanaAddress s), rq_client = solanaMainnetConnection,
        rq_time = now (solana_mainnet s), rq_origin = FromCaller\<rparr>]"
  using assms
  by (simp add: dormant_def in_sync_def step_def use_memo_frame refresh_def getBalance_requests
      variant_simps)

lemma onSuccess_mainnet_refused:
  assumes "dormant (solana_mainnet s)" "in_sync s" "rendered s FundWalletSolana"
    "PublicKey (the (solanaAddress s)) = Some e"
  shows "requests (solana_mainnet (screen_step PublicKey ToString s (OnSuccess FundWalletSolana)))
      = []"
    and "balance (solana_mainnet (screen_step PublicKey ToString s (OnSuccess FundWalletSolana)))
      = Some 0"
    and "console (solana_mainnet (screen_step PublicKey ToString s (OnSuccess FundWalletSolana)))
      = [e]"
proof -
  from assms(2,3) have a: "truthy (address (solana_mainnet s))"
    and m: "mounted (solana_mainnet s)"
    and k: "PublicKey (the (address (solana_mainnet s))) = Some e"
    using assms(4) by (simp_all add: in_sync_def)
  note r = refresh_refused [where PublicKey = PublicKey and ToString = ToString
      and s = "solana_mainnet s" and e = e, OF a k]
  from assms(1,3) r m
  show "requests (solana_mainnet (screen_step PublicKey ToString s (OnSuccess FundWalletSolana)))
      = []"
    and "balance (solana_mainnet (screen_step PublicKey ToString s (OnSuccess FundWalletSolana)))
      = Some 0"
    and "console (solana_mainnet (screen_step PublicKey ToString s (OnSuccess FundWalletSolana)))
      = [e]"
    by (simp_all add: dormant_def step_def use_memo_frame)
qed

subsection \<open>The requests of a hook\<close>

lemma fold_getBalance_timed:
  "timed_fetches (fold (\<lambda>i. getBalance K (tm_address i) (tm_client i) FromTimer) ts s)
     = timed_fetches s
       @ map (\<lambda>i. now s)
           (filter (\<lambda>i. truthy (tm_address i) \<and> throws K (the (tm_address i)) = None) ts)"
proof (induction ts arbitrary: s)
  case Nil
  show ?case by simp
next
  case (Cons t ts)
  show ?case
    by (simp add: Cons.IH getBalance_frame) (simp add: timed_fetches_def getBalance_requests)
qed

lemma tick_timed_fetches:
  "timed_fetches (tick K s)
     = timed_fetches s
       @ map (\<lambda>i. now s + 1)
           (filter (\<lambda>i. truthy (tm_address i) \<and> throws K (the (tm_address i)) = None)
              (filter (\<lambda>i. tm_due i = now s + 1) (timers s)))"
  by (simp add: tick_def Let_def fold_getBalance_timed) (simp add: timed_fetches_def)

lemma fold_getBalance_grows:
  "\<exists>rs. requests (fold (\<lambda>i. getBalance K (tm_address i) (tm_client i) origin) ts s)
     = requests s @ rs"
proof (induction ts arbitrary: s)
  case Nil
  show ?case by simp
next
  case (Cons t ts)
  from Cons [of "getBalance K (tm_address t) (tm_client t) origin s"]
  show ?case by (auto simp: getBalance_requests)
qed

lemma requests_grow: "\<exists>rs. requests (step K s e) = requests s @ rs"
proof (cases e)
  case (Render p)
  then show ?thesis
    by (simp add: step_def use_memo_frame render_def Let_def run_effect_def run_cleanup_frame
        getBalance_requests getBalance_frame)
next
  case Unmount
  then show ?thesis by (simp add: step_def use_memo_frame unmount_def run_cleanup_frame)
next
  case Tick
  define t where "t = now s + 1"
  define s1 where "s1 = s\<lparr>now := t,
    timers := map (\<lambda>i. if tm_due i = t then i\<lparr>tm_due := t + 500\<rparr> else i) (timers s)\<rparr>"
  have "tick K s = fold (\<lambda>i. getBalance K (tm_address i) (tm_client i) FromTimer)
      (filter (\<lambda>i. tm_due i = t) (timers s)) s1"
    by (simp only: tick_def Let_def t_def s1_def)
  moreover have "requests s1 = requests s" by (simp add: s1_def)
  ultimately show ?thesis
    using Tick fold_getBalance_grows [of K FromTimer "filter (\<lambda>i. tm_due i = t) (timers s)" s1]
    by (simp add: step_def use_memo_frame)
next
  case Refresh
  then show ?thesis by (simp add: step_def use_memo_frame refresh_def getBalance_requests)
next
  case (Settle i r)
  then show ?thesis by (simp add: step_def use_memo_frame settle_frame)
qed

lemma first_request_step:
  assumes "requests s \<noteq> []"
  shows "requests (step K s e) \<noteq> []" and "hd (requests (step K s e)) = hd (requests s)"
proof -
  obtain rs where "requests (step K s e) = requests s @ rs"
    using requests_grow by blast
  with assms show "requests (step K s e) \<noteq> []" and "hd (requests (step K s e)) = hd (requests s)"
    by simp_all
qed

lemma first_request_run:
  "requests s \<noteq> [] \<Longrightarrow>
     requests (run K es s) \<noteq> [] \<and> hd (requests (run K es s)) = hd (requests s)"
  by (induction es arbitrary: s) (simp_all add: run_Nil run_Cons first_request_step)

subsection \<open>A hook that never polls\<close>

lemma unpolled_use_memo: "unpolled (use_memo f h) = unpolled h"
  by (simp add: unpolled_def use_memo_frame timed_fetches_use_memo)

lemma unpolled_mount: "unpolled (mount K (mainnet_props a) t0)"
  unfolding mount_def unpolled_use_memo
  by (simp add: unpolled_def mainnet_props_def poll_of_def run_effect_def timed_fetches_def)

lemma unpolled_render: "unpolled h \<Longrightarrow> unpolled (render K (mainnet_props a) h)"
  by (simp add: unpolled_def render_def Let_def mainnet_props_def poll_of_def run_effect_def
      run_cleanup_def timed_fetches_def)

lemma unpolled_tick: "unpolled h \<Longrightarrow> unpolled (tick K h)"
  by (simp add: unpolled_def tick_frame tick_timers tick_timed_fetches)

lemma unpolled_unmount: "unpolled h \<Longrightarrow> unpolled (unmount h)"
  by (simp add: unpolled_def unmount_def run_cleanup_def timed_fetches_def)

lemma unpolled_settle: "unpolled h \<Longrightarrow> unpolled (settle k i r h)"
  by (simp add: unpolled_def settle_frame timed_fetches_settle)

lemma unpolled_refresh: "unpolled h \<Longrightarrow> unpolled (refresh K h)"
  by (simp add: unpolled_def refresh_frame timed_fetches_refresh)

lemma unpolled_step:
  assumes "unpolled h"
  shows "unpolled (step K h (Render (mainnet_props a)))" and "unpolled (step K h Tick)"
    and "unpolled (step K h Unmount)" and "unpolled (step K h Refresh)"
    and "unpolled (step K h (Settle i r))"
  unfolding step_def unpolled_use_memo using assms
  by (simp_all add: unpolled_render unpolled_tick unpolled_unmount unpolled_settle
      unpolled_refresh)

lemma screen_step_unpolled:
  assumes "unpolled (solana_mainnet s)"
  shows "unpolled (solana_mainnet (screen_step PublicKey ToString s e))"
proof (cases e)
  case (Auth si ea sa)
  with assms show ?thesis by (simp add: unpolled_step)
next
  case Elapse
  with assms show ?thesis by (simp add: unpolled_step)
next
  case Leave
  with assms show ?thesis by (simp add: unpolled_step)
next
  case (EvmSettled n i r)
  with assms show ?thesis by (cases n) simp_all
next
  case (SolanaSettled n i r)
  with assms show ?thesis by (cases n) (simp_all add: unpolled_step)
next
  case (OnSuccess w)
  with assms show ?thesis by (cases w) (simp_all add: unpolled_step)
qed

lemma run_screen_unpolled:
  "unpolled (solana_mainnet s) \<Longrightarrow>
     unpolled (solana_mainnet (run_screen PublicKey ToString es s))"
  by (induction es arbitrary: s) (simp_all add: run_screen_Nil run_screen_Cons screen_step_unpolled)

section \<open>The claims\<close>

subsection \<open>Formatting\<close>

text \<open>
  Claim C1, as the code has it: for every lamport balance \<open>L\<close> with
  \<open>0 \<le> L < 8388608000000000\<close> (that is \<open>2 ^ 23\<close> SOL), \<^verbatim>\<open>formatSol\<close> returns a
  decimal string that denotes exactly \<open>L / 10 ^ 9\<close>, with at most nine fraction
  digits, no zero at the end of the fraction, no point at the end, and the digits of
  the whole SOL as its integer part; the hook's
  \<^verbatim>\<open>formattedBalance\<close> is that string; and \<^verbatim>\<open>formatSol\<close> maps 1500000000 to
  \<^verbatim>\<open>1.5\<close>, 1000000000 to \<^verbatim>\<open>1\<close> and 0 to \<^verbatim>\<open>0\<close>. The bound is where the
  rounding of the binary64 quotient starts to reach the ninth decimal.
\<close>

theorem formatSol_denotes_lamports:
  fixes ToString :: "rat \<Rightarrow> string"
  assumes "0 \<le> L" and "L < 8388608000000000"
  shows "decimal_value (formatSol ToString (of_int L)) = Some (of_int L / 10 ^ 9)
    \<and> fraction_digits (formatSol ToString (of_int L)) \<le> 9
    \<and> replace_trailing_zeros (fraction_part (formatSol ToString (of_int L)))
        = fraction_part (formatSol ToString (of_int L))
    \<and> takeWhile is_digit (formatSol ToString (of_int L)) = digits (L div 10 ^ 9)
    \<and> formatSol ToString (of_int L) \<noteq> []
    \<and> last (formatSol ToString (of_int L)) \<noteq> CHR ''.''
    \<and> sol_formattedBalance ToString (s\<lparr>balance := Some L\<rparr>)
        = Some (formatSol ToString (of_int L))
    \<and> formatSol ToString 1500000000 = ''1.5''
    \<and> formatSol ToString 1000000000 = ''1''
    \<and> formatSol ToString 0 = ''0''"
proof -
  from assms(2) have "L < 9007199254740992" by simp
  with assms(1) have "Number L = of_int L" by (rule Number_exact)
  then have hook: "sol_formattedBalance ToString (s\<lparr>balance := Some L\<rparr>)
      = Some (formatSol ToString (of_int L))"
    by (simp add: sol_formattedBalance_def)
  have e1: "formatSol ToString 1500000000 = ''1.5''" by code_simp
  have e2: "formatSol ToString 1000000000 = ''1''" by code_simp
  have e3: "formatSol ToString 0 = ''0''" by code_simp
  note ex = formatSol_exact [OF assms, of ToString]
  from ex(1) ex(2) ex(3) ex(6) ex(4) ex(5) hook e1 e2 e3 show ?thesis
    by (intro conjI)
qed

theorem formatSol_denotes_lamports_witness:
  "(0::int) \<le> 1500000000 \<and> (1500000000::int) < 8388608000000000
    \<and> decimal_value (formatSol (\<lambda>x. []) 1500000000) = Some (3 / 2)"
proof -
  have h1: "(0::int) \<le> 1500000000" and h2: "(1500000000::int) < 8388608000000000"
    by simp_all
  have "decimal_value (formatSol (\<lambda>x. []) (of_int 1500000000))
      = Some (of_int 1500000000 / 10 ^ 9)"
    using formatSol_denotes_lamports [OF h1 h2, where ToString = "\<lambda>x. []"]
    by (rule conjunct1)
  with h1 h2 show ?thesis by simp
qed

text \<open>
  Claim C1 as stated, for every non-negative integer, fails above the bound: for the
  balance 8388608000000001 (a value a \<^verbatim>\<open>number\<close> holds exactly) the string
  returned denotes 8388608000000002 lamports.
\<close>

theorem formatSol_rounds_counterexample:
  "formatSol (\<lambda>x. []) 8388608000000001 = ''8388608.000000002''
    \<and> decimal_value (formatSol (\<lambda>x. []) 8388608000000001) \<noteq> Some (8388608000000001 / 10 ^ 9)"
  by code_simp

text \<open>
  Claim C5: for every balance \<open>B \<ge> 0\<close> the EVM formatter returns a decimal string with
  at most 18 fraction digits that denotes exactly \<open>B / 10 ^ 18\<close> (its fraction without
  a zero at the end, its integer part the digits of the whole ether), and the hook's
  \<^verbatim>\<open>formattedBalance\<close> is that string.
\<close>

theorem formatEther_denotes_wei:
  assumes "0 \<le> B"
  shows "decimal_value (formatEther B) = Some (of_int B / 10 ^ 18)
    \<and> fraction_digits (formatEther B) \<le> 18
    \<and> replace_trailing_zeros (fraction_part (formatEther B)) = fraction_part (formatEther B)
    \<and> takeWhile is_digit (formatEther B) = digits (B div 10 ^ 18)
    \<and> evm_formattedBalance (s\<lparr>balance := Some B\<rparr>) = Some (formatEther B)"
  using formatEther_exact [OF assms] by (simp add: evm_formattedBalance_def)

theorem formatEther_denotes_wei_witness:
  "(0::int) \<le> 1500000000000000000
    \<and> decimal_value (formatEther 1500000000000000000) = Some (3 / 2)
    \<and> fraction_digits (formatEther 1500000000000000000) \<le> 18
    \<and> formatEther 1500000000000000000 = ''1.5''"
proof -
  have h: "(0::int) \<le> 1500000000000000000" by simp
  have "formatEther 1500000000000000000 = ''1.5''" by code_simp
  with formatEther_denotes_wei [OF h] show ?thesis by simp
qed

subsection \<open>Polling\<close>

text \<open>
  Claim C2, as the code has it: while the address is absent (\<^verbatim>\<open>null\<close> or empty) from
  the mount on, neither hook makes a network call and the balance and its formatted
  form stay undefined. The interval is started all the same when \<open>poll\<close> is set (its
  ticks return at once); none is started when \<open>poll\<close> is not set.
\<close>

theorem no_address_no_fetch:
  fixes es :: "int event list" and es' :: "rat event list"
  assumes "\<not> truthy (p_address p)"
    and "list_all keeps_no_address es" and "list_all keeps_no_address es'"
  shows "requests (useEvmBalance p t0 es) = [] \<and> balance (useEvmBalance p t0 es) = None
    \<and> evm_formattedBalance (useEvmBalance p t0 es) = None
    \<and> formattedBalance (useEvmBalance p t0 es) = None
    \<and> requests (useSolanaBalance PublicKey ToString p t0 es') = []
    \<and> balance (useSolanaBalance PublicKey ToString p t0 es') = None
    \<and> sol_formattedBalance ToString (useSolanaBalance PublicKey ToString p t0 es') = None
    \<and> formattedBalance (useSolanaBalance PublicKey ToString p t0 es') = None
    \<and> timers (mount evm p t0)
        = (if poll_of p
           then [\<lparr>tm_id = 0, tm_address = p_address p, tm_client = p_client p, tm_due = t0 + 500\<rparr>]
           else [])
    \<and> timers (mount (solana PublicKey ToString) p t0)
        = (if poll_of p
           then [\<lparr>tm_id = 0, tm_address = p_address p, tm_client = p_client p, tm_due = t0 + 500\<rparr>]
           else [])"
proof -
  have m: "idle (mount K p t0)" for K :: "'v variant"
    using assms(1) by (rule idle_mount)
  have t: "timers (mount K p t0)
      = (if poll_of p
         then [\<lparr>tm_id = 0, tm_address = p_address p, tm_client = p_client p, tm_due = t0 + 500\<rparr>]
         else [])" for K :: "'v variant"
    by (simp add: mount_def use_memo_frame run_effect_def Let_def getBalance_frame)
  have "idle (useEvmBalance p t0 es)"
    unfolding useEvmBalance_def using m assms(2) by (rule idle_run)
  moreover have "idle (useSolanaBalance PublicKey ToString p t0 es')"
    unfolding useSolanaBalance_def using m assms(3) by (rule idle_run)
  ultimately show ?thesis
    using t [of evm] t [of "solana PublicKey ToString"]
    by (simp add: idle_def evm_formattedBalance_def sol_formattedBalance_def
        formattedBalance_def)
qed

theorem no_address_no_fetch_witness:
  "\<not> truthy (p_address \<lparr>p_address = None, p_client = 0, p_poll = Some True\<rparr>)
    \<and> list_all keeps_no_address [Tick, Refresh, Tick :: int event]
    \<and> list_all keeps_no_address [Tick, Refresh, Tick :: rat event]
    \<and> requests (useEvmBalance \<lparr>p_address = None, p_client = 0, p_poll = Some True\<rparr> 0
          [Tick, Refresh, Tick]) = []
    \<and> balance (useSolanaBalance Map.empty (\<lambda>x. [])
          \<lparr>p_address = None, p_client = 0, p_poll = Some True\<rparr> 0 [Tick, Refresh, Tick]) = None"
proof -
  let ?p = "\<lparr>p_address = None, p_client = 0, p_poll = Some True\<rparr>"
  have h1: "\<not> truthy (p_address ?p)" by (simp add: truthy_def)
  have h2: "list_all keeps_no_address [Tick, Refresh, Tick :: int event]" by simp
  have h3: "list_all keeps_no_address [Tick, Refresh, Tick :: rat event]" by simp
  from no_address_no_fetch [OF h1 h2 h3, where PublicKey = Map.empty and ToString = "\<lambda>x. []"]
    h1 h2 h3
  show ?thesis by blast
qed

text \<open>
  Claim C2 as stated fails in its last part: a hook mounted without an address and
  with \<open>poll\<close> set has its interval running.
\<close>

theorem null_address_timer_counterexample:
  "timers (useEvmBalance \<lparr>p_address = None, p_client = 0, p_poll = Some True\<rparr> 0 [])
     = [\<lparr>tm_id = 0, tm_address = None, tm_client = 0, tm_due = 500\<rparr>]
   \<and> timers (useSolanaBalance Map.empty (\<lambda>x. [])
        \<lparr>p_address = None, p_client = 0, p_poll = Some True\<rparr> 0 [])
     = [\<lparr>tm_id = 0, tm_address = None, tm_client = 0, tm_due = 500\<rparr>]"
  by (simp add: useEvmBalance_def useSolanaBalance_def run_Nil mount_def use_memo_def
      run_effect_def poll_of_def getBalance_def truthy_def)

text \<open>
  Claim C6: a hook mounted with an address and with \<open>poll\<close> set makes its first
  network call at the time of the mount, and, for as long as it stays mounted with
  the same arguments, the calls of its effect and interval are exactly those at the
  times \<open>t0\<close>, \<open>t0 + 500\<close>, \<open>t0 + 1000\<close>, ... up to the present; whatever else happens
  meanwhile (manual calls, settlements, renders with unchanged arguments). The same
  holds from a later render on that changes the address, the client or \<open>poll\<close> of a
  mounted hook into such arguments: a call at the time of that render, and one every
  500 units after it. For the Solana hook the address is a valid one: one that
  \<^verbatim>\<open>new PublicKey\<close> accepts. Below, \<open>p\<close> are the arguments of the EVM hook and \<open>p'\<close>
  those of the Solana hook.
\<close>

theorem polling_schedule:
  fixes es es0 es2 :: "int event list" and es' es0' es2' :: "rat event list"
    and p p' p0 p0' :: props and t0 t0' t1 t1' :: nat
    and PublicKey :: "string \<rightharpoonup> reason" and ToString :: "rat \<Rightarrow> string"
  assumes "truthy (p_address p)" and "poll_of p"
    and "list_all (keeps p) es" and "list_all (keeps p) es2"
    and "truthy (p_address p')" and "poll_of p'"
    and "list_all (keeps p') es'" and "list_all (keeps p') es2'"
  defines "s \<equiv> useEvmBalance p0 t1 es0"
    and "s' \<equiv> useSolanaBalance PublicKey ToString p0' t1' es0'"
  shows "timed_fetches (useEvmBalance p t0 es)
      = map (\<lambda>j. t0 + 500 * j) [0..<Suc (elapsed es div 500)]
    \<and> hd (requests (useEvmBalance p t0 es))
      = \<lparr>rq_address = the (p_address p), rq_client = p_client p, rq_time = t0,
         rq_origin = FromEffect\<rparr>
    \<and> now (useEvmBalance p t0 es) = t0 + elapsed es
    \<and> (mounted s \<and> (p_address p \<noteq> address s \<or> p_client p \<noteq> client s \<or> \<not> poll s) \<longrightarrow>
         timed_fetches (run evm es2 (step evm s (Render p)))
           = timed_fetches s @ map (\<lambda>j. now s + 500 * j) [0..<Suc (elapsed es2 div 500)])
    \<and> (PublicKey (the (p_address p')) = None \<longrightarrow>
         timed_fetches (useSolanaBalance PublicKey ToString p' t0' es')
           = map (\<lambda>j. t0' + 500 * j) [0..<Suc (elapsed es' div 500)]
         \<and> hd (requests (useSolanaBalance PublicKey ToString p' t0' es'))
           = \<lparr>rq_address = the (p_address p'), rq_client = p_client p', rq_time = t0',
              rq_origin = FromEffect\<rparr>
         \<and> now (useSolanaBalance PublicKey ToString p' t0' es') = t0' + elapsed es'
         \<and> (mounted s'
              \<and> (p_address p' \<noteq> address s' \<or> p_client p' \<noteq> client s' \<or> \<not> poll s') \<longrightarrow>
              timed_fetches (run (solana PublicKey ToString) es2'
                  (step (solana PublicKey ToString) s' (Render p')))
                = timed_fetches s'
                  @ map (\<lambda>j. now s' + 500 * j) [0..<Suc (elapsed es2' div 500)]))"
proof -
  let ?S = "solana PublicKey ToString"
  have ke: "throws evm (the (p_address p)) = None" by (simp add: variant_simps)
  note me = mount_polling [OF assms(1,2) ke, of t0]
  from me(2) have ne: "requests (mount evm p t0) \<noteq> []" by simp
  note e = polling_from_mount [OF assms(1) ke assms(2,3), of t0]
  note fe = first_request_run [OF ne, of evm es]
  have sch: "scheduled s"
    unfolding s_def useEvmBalance_def using scheduled_mount by (rule scheduled_run)
  have sch': "scheduled s'"
    unfolding s'_def useSolanaBalance_def using scheduled_mount by (rule scheduled_run)
  have re: "timed_fetches (run evm es2 (step evm s (Render p)))
      = timed_fetches s @ map (\<lambda>j. now s + 500 * j) [0..<Suc (elapsed es2 div 500)]"
    if "mounted s" "p_address p \<noteq> address s \<or> p_client p \<noteq> client s \<or> \<not> poll s"
    using assms(1) ke assms(2,4) sch that by (rule polling_from_render)
  have sol: "timed_fetches (useSolanaBalance PublicKey ToString p' t0' es')
        = map (\<lambda>j. t0' + 500 * j) [0..<Suc (elapsed es' div 500)]
      \<and> hd (requests (useSolanaBalance PublicKey ToString p' t0' es'))
        = \<lparr>rq_address = the (p_address p'), rq_client = p_client p', rq_time = t0',
           rq_origin = FromEffect\<rparr>
      \<and> now (useSolanaBalance PublicKey ToString p' t0' es') = t0' + elapsed es'
      \<and> (mounted s'
           \<and> (p_address p' \<noteq> address s' \<or> p_client p' \<noteq> client s' \<or> \<not> poll s') \<longrightarrow>
           timed_fetches (run ?S es2' (step ?S s' (Render p')))
             = timed_fetches s' @ map (\<lambda>j. now s' + 500 * j) [0..<Suc (elapsed es2' div 500)])"
    if ok: "PublicKey (the (p_address p')) = None"
  proof -
    have ks: "throws ?S (the (p_address p')) = None" using ok by (simp add: variant_simps)
    note ms = mount_polling [OF assms(5,6) ks, of t0']
    from ms(2) have ns: "requests (mount ?S p' t0') \<noteq> []" by simp
    note so = polling_from_mount [OF assms(5) ks assms(6,7), of t0']
    note fs = first_request_run [OF ns, of ?S es']
    have rs: "timed_fetches (run ?S es2' (step ?S s' (Render p')))
        = timed_fetches s' @ map (\<lambda>j. now s' + 500 * j) [0..<Suc (elapsed es2' div 500)]"
      if "mounted s'" "p_address p' \<noteq> address s' \<or> p_client p' \<noteq> client s' \<or> \<not> poll s'"
      using assms(5) ks assms(6,8) sch' that by (rule polling_from_render)
    from so fs ms(2) rs show ?thesis by (simp add: useSolanaBalance_def)
  qed
  from e fe me(2) re sol show ?thesis
    by (simp add: useEvmBalance_def)
qed

theorem polling_schedule_witness:
  "truthy (p_address \<lparr>p_address = Some ''a'', p_client = 0, p_poll = Some True\<rparr>)
    \<and> poll_of \<lparr>p_address = Some ''a'', p_client = 0, p_poll = Some True\<rparr>
    \<and> list_all (keeps \<lparr>p_address = Some ''a'', p_client = 0, p_poll = Some True\<rparr>)
         (replicate 1000 Tick @ [Refresh :: int event])
    \<and> truthy (p_address \<lparr>p_address = Some ''11111111111111111111111111111111'', p_client = 3,
         p_poll = Some True\<rparr>)
    \<and> poll_of \<lparr>p_address = Some ''11111111111111111111111111111111'', p_client = 3,
         p_poll = Some True\<rparr>
    \<and> Map.empty (the (p_address \<lparr>p_address = Some ''11111111111111111111111111111111'',
         p_client = 3, p_poll = Some True\<rparr>)) = (None :: reason option)
    \<and> list_all (keeps \<lparr>p_address = Some ''11111111111111111111111111111111'', p_client = 3,
         p_poll = Some True\<rparr>) (replicate 1000 Tick @ [Refresh :: rat event])
    \<and> timed_fetches (useEvmBalance \<lparr>p_address = Some ''a'', p_client = 0, p_poll = Some True\<rparr> 7
         (replicate 1000 Tick @ [Refresh])) = [7, 507, 1007]
    \<and> timed_fetches (useSolanaBalance Map.empty (\<lambda>x. [])
         \<lparr>p_address = Some ''11111111111111111111111111111111'', p_client = 3,
          p_poll = Some True\<rparr> 7 (replicate 1000 Tick @ [Refresh]))
       = [7, 507, 1007]
    \<and> mounted (useSolanaBalance Map.empty (\<lambda>x. [])
         \<lparr>p_address = None, p_client = 3, p_poll = Some True\<rparr> 0 [Tick, Tick])
    \<and> p_address \<lparr>p_address = Some ''11111111111111111111111111111111'', p_client = 3,
         p_poll = Some True\<rparr>
        \<noteq> address (useSolanaBalance Map.empty (\<lambda>x. [])
            \<lparr>p_address = None, p_client = 3, p_poll = Some True\<rparr> 0 [Tick, Tick])
    \<and> timed_fetches (run (solana Map.empty (\<lambda>x. [])) (replicate 500 Tick)
         (step (solana Map.empty (\<lambda>x. []))
            (useSolanaBalance Map.empty (\<lambda>x. [])
               \<lparr>p_address = None, p_client = 3, p_poll = Some True\<rparr> 0 [Tick, Tick])
            (Render \<lparr>p_address = Some ''11111111111111111111111111111111'', p_client = 3,
               p_poll = Some True\<rparr>)))
       = [2, 502]"
proof -
  let ?p = "\<lparr>p_address = Some ''a'', p_client = 0, p_poll = Some True\<rparr>"
  let ?r = "\<lparr>p_address = Some ''11111111111111111111111111111111'', p_client = 3,
    p_poll = Some True\<rparr>"
  let ?q = "\<lparr>p_address = None, p_client = 3, p_poll = Some True\<rparr>"
  let ?S = "solana Map.empty (\<lambda>x. [])"
  let ?s = "useSolanaBalance Map.empty (\<lambda>x. []) ?q 0 [Tick, Tick]"
  have h1: "truthy (p_address ?p)" by (simp add: truthy_def)
  have h2: "poll_of ?p" by (simp add: poll_of_def)
  have h3: "list_all (keeps ?p) (replicate 1000 Tick @ [Refresh :: int event])"
    by (simp add: list_all_iff)
  have h4: "list_all (keeps ?p) ([] :: int event list)" by simp
  have h5: "truthy (p_address ?r)" by (simp add: truthy_def)
  have h6: "poll_of ?r" by (simp add: poll_of_def)
  have h7: "list_all (keeps ?r) (replicate 1000 Tick @ [Refresh :: rat event])"
    by (simp add: list_all_iff)
  have h8: "list_all (keeps ?r) (replicate 500 Tick :: rat event list)"
    by (simp add: list_all_iff)
  have k: "Map.empty (the (p_address ?r)) = (None :: reason option)" by simp
  have n: "elapsed (replicate 1000 Tick @ [Refresh :: int event]) = 1000"
    "elapsed (replicate 1000 Tick @ [Refresh :: rat event]) = 1000"
    "elapsed (replicate 500 Tick :: rat event list) = 500"
    by (simp_all add: elapsed_def)
  have f1: "mounted ?s" by code_simp
  have f2: "address ?s = None" by code_simp
  have f3: "now ?s = 2" by code_simp
  have f4: "timed_fetches ?s = []" by code_simp
  note f = f1 f2 f3 f4
  have u: "map (\<lambda>j. 7 + 500 * j) [0..<Suc (1000 div 500)] = [7, 507, 1007 :: nat]"
    "map (\<lambda>j. 2 + 500 * j) [0..<Suc (500 div 500)] = [2, 502 :: nat]"
    by (simp_all add: upt_rec)
  note t = polling_schedule [OF h1 h2 h3 h4 h5 h6 h7 h8, where ?t0.0 = 7 and ?t0'.0 = 7
      and PublicKey = Map.empty and ToString = "\<lambda>x. []"
      and ?es0'.0 = "[Tick, Tick]" and ?p0'.0 = ?q and ?t1'.0 = 0]
  from t n u(1)
  have "timed_fetches (useEvmBalance ?p 7 (replicate 1000 Tick @ [Refresh])) = [7, 507, 1007]"
    by simp
  moreover from t k n u(1)
  have "timed_fetches (useSolanaBalance Map.empty (\<lambda>x. []) ?r 7
      (replicate 1000 Tick @ [Refresh])) = [7, 507, 1007]"
    by simp
  moreover from t k f n u(2)
  have "timed_fetches (run ?S (replicate 500 Tick) (step ?S ?s (Render ?r))) = [2, 502]"
    by simp
  ultimately show ?thesis using h1 h2 h3 h5 h6 h7 f by simp
qed

text \<open>
  Claim C7: a call of the \<^verbatim>\<open>getBalance\<close> a hook returned, with an address present
  (for the Solana hook an address \<^verbatim>\<open>new PublicKey\<close> accepts), issues a network call
  at once, in whatever state the hook is, and leaves the interval as it was: the same
  interval with the same due time, also after the call has settled, and the next unit
  of time brings the same timed calls as it would have without the manual call.
  Below, \<open>s\<close> is a state of the EVM hook and \<open>s'\<close> one of the Solana hook.
\<close>

theorem manual_refresh:
  fixes k :: "int response \<Rightarrow> action list \<times> outcome"
    and k' :: "rat response \<Rightarrow> action list \<times> outcome"
    and PublicKey :: "string \<rightharpoonup> reason" and ToString :: "rat \<Rightarrow> string"
  assumes "truthy (address s)" and "truthy (address s')"
  defines "S \<equiv> solana PublicKey ToString"
  shows "requests (refresh evm s)
      = requests s @ [\<lparr>rq_address = the (address s), rq_client = client s, rq_time = now s,
                       rq_origin = FromCaller\<rparr>]
    \<and> (PublicKey (the (address s')) = None \<longrightarrow>
         requests (refresh S s')
           = requests s' @ [\<lparr>rq_address = the (address s'), rq_client = client s',
                             rq_time = now s', rq_origin = FromCaller\<rparr>])
    \<and> timers (refresh evm s) = timers s \<and> timers (refresh S s') = timers s'
    \<and> cleanup (refresh evm s) = cleanup s \<and> cleanup (refresh S s') = cleanup s'
    \<and> now (refresh evm s) = now s \<and> now (refresh S s') = now s'
    \<and> timers (settle k i r (refresh evm s)) = timers s
    \<and> timers (settle k' i' r' (refresh S s')) = timers s'
    \<and> timed_fetches (refresh evm s) = timed_fetches s
    \<and> timed_fetches (refresh S s') = timed_fetches s'
    \<and> timers (tick evm (refresh evm s)) = timers (tick evm s)
    \<and> timers (tick S (refresh S s')) = timers (tick S s')
    \<and> timed_fetches (tick evm (refresh evm s)) = timed_fetches (tick evm s)
    \<and> timed_fetches (tick S (refresh S s')) = timed_fetches (tick S s')"
proof -
  have "requests (refresh evm s)
      = requests s @ [\<lparr>rq_address = the (address s), rq_client = client s, rq_time = now s,
                       rq_origin = FromCaller\<rparr>]"
    using assms(1) by (simp add: refresh_def getBalance_requests variant_simps)
  moreover have "requests (refresh S s')
      = requests s' @ [\<lparr>rq_address = the (address s'), rq_client = client s',
                        rq_time = now s', rq_origin = FromCaller\<rparr>]"
    if "PublicKey (the (address s')) = None"
    using assms(2) that by (simp add: S_def refresh_def getBalance_requests variant_simps)
  ultimately show ?thesis
    by (simp add: refresh_frame settle_frame timed_fetches_refresh tick_timers
        tick_timed_fetches)
qed

theorem manual_refresh_witness:
  "truthy (address (useEvmBalance \<lparr>p_address = Some ''a'', p_client = 0, p_poll = Some True\<rparr> 0
       (replicate 499 Tick)))
    \<and> truthy (address (useSolanaBalance Map.empty (\<lambda>x. [])
         \<lparr>p_address = Some ''11111111111111111111111111111111'', p_client = 3,
          p_poll = Some True\<rparr> 0 [Tick, Tick, Tick]))
    \<and> Map.empty (the (address (useSolanaBalance Map.empty (\<lambda>x. [])
         \<lparr>p_address = Some ''11111111111111111111111111111111'', p_client = 3,
          p_poll = Some True\<rparr> 0 [Tick, Tick, Tick]))) = (None :: reason option)
    \<and> timers (useEvmBalance \<lparr>p_address = Some ''a'', p_client = 0, p_poll = Some True\<rparr> 0
         (replicate 499 Tick))
       = [\<lparr>tm_id = 0, tm_address = Some ''a'', tm_client = 0, tm_due = 500\<rparr>]
    \<and> requests (refresh evm
         (useEvmBalance \<lparr>p_address = Some ''a'', p_client = 0, p_poll = Some True\<rparr> 0
            (replicate 499 Tick)))
       = [\<lparr>rq_address = ''a'', rq_client = 0, rq_time = 0, rq_origin = FromEffect\<rparr>,
          \<lparr>rq_address = ''a'', rq_client = 0, rq_time = 499, rq_origin = FromCaller\<rparr>]
    \<and> timers (refresh evm
         (useEvmBalance \<lparr>p_address = Some ''a'', p_client = 0, p_poll = Some True\<rparr> 0
            (replicate 499 Tick)))
       = [\<lparr>tm_id = 0, tm_address = Some ''a'', tm_client = 0, tm_due = 500\<rparr>]
    \<and> timed_fetches (tick evm (refresh evm
         (useEvmBalance \<lparr>p_address = Some ''a'', p_client = 0, p_poll = Some True\<rparr> 0
            (replicate 499 Tick)))) = [0, 500]
    \<and> requests (refresh (solana Map.empty (\<lambda>x. []))
         (useSolanaBalance Map.empty (\<lambda>x. [])
            \<lparr>p_address = Some ''11111111111111111111111111111111'', p_client = 3,
             p_poll = Some True\<rparr> 0 [Tick, Tick, Tick]))
       = [\<lparr>rq_address = ''11111111111111111111111111111111'', rq_client = 3, rq_time = 0,
           rq_origin = FromEffect\<rparr>,
          \<lparr>rq_address = ''11111111111111111111111111111111'', rq_client = 3, rq_time = 3,
           rq_origin = FromCaller\<rparr>]
    \<and> timers (refresh (solana Map.empty (\<lambda>x. []))
         (useSolanaBalance Map.empty (\<lambda>x. [])
            \<lparr>p_address = Some ''11111111111111111111111111111111'', p_client = 3,
             p_poll = Some True\<rparr> 0 [Tick, Tick, Tick]))
       = [\<lparr>tm_id = 0, tm_address = Some ''11111111111111111111111111111111'', tm_client = 3,
           tm_due = 500\<rparr>]"
proof -
  let ?p = "\<lparr>p_address = Some ''a'', p_client = 0, p_poll = Some True\<rparr>"
  let ?r = "\<lparr>p_address = Some ''11111111111111111111111111111111'', p_client = 3,
    p_poll = Some True\<rparr>"
  let ?S = "solana Map.empty (\<lambda>x. [])"
  let ?s = "useEvmBalance ?p 0 (replicate 499 Tick)"
  let ?s' = "useSolanaBalance Map.empty (\<lambda>x. []) ?r 0 [Tick, Tick, Tick]"
  let ?h = "\<lparr>address = Some ''a'', client = 0, poll = True,
    balance = None, memo = (None, None), mounted = True, cleanup = Some 0,
    timers = [\<lparr>tm_id = 0, tm_address = Some ''a'', tm_client = 0, tm_due = 500\<rparr>],
    next_timer = 1, now = 499,
    requests = [\<lparr>rq_address = ''a'', rq_client = 0, rq_time = 0, rq_origin = FromEffect\<rparr>],
    pending = [0], console = [], settled = []\<rparr>"
  have s: "?s = ?h" by code_simp
  have a: "address ?s = Some ''a''" unfolding s by simp
  have c: "client ?s = 0" unfolding s by simp
  have n: "now ?s = 499" unfolding s by simp
  have t: "timers ?s = [\<lparr>tm_id = 0, tm_address = Some ''a'', tm_client = 0, tm_due = 500\<rparr>]"
    unfolding s by simp
  have r: "requests ?s = [\<lparr>rq_address = ''a'', rq_client = 0, rq_time = 0,
      rq_origin = FromEffect\<rparr>]" unfolding s by simp
  have f: "timed_fetches (tick evm ?s) = [0, 500]" unfolding s by code_simp
  have a': "address ?s' = Some ''11111111111111111111111111111111''" by code_simp
  have c': "client ?s' = 3" by code_simp
  have n': "now ?s' = 3" by code_simp
  have t': "timers ?s' = [\<lparr>tm_id = 0,
      tm_address = Some ''11111111111111111111111111111111'', tm_client = 3, tm_due = 500\<rparr>]"
    by code_simp
  have r': "requests ?s' = [\<lparr>rq_address = ''11111111111111111111111111111111'',
      rq_client = 3, rq_time = 0, rq_origin = FromEffect\<rparr>]" by code_simp
  from a have h1: "truthy (address ?s)" by (simp add: truthy_def)
  from a' have h2: "truthy (address ?s')" by (simp add: truthy_def)
  have h3: "Map.empty (the (address ?s')) = (None :: reason option)" by simp
  note m = manual_refresh [OF h1 h2, where PublicKey = Map.empty and ToString = "\<lambda>x. []"]
  from m a c n r
  have "requests (refresh evm ?s)
      = [\<lparr>rq_address = ''a'', rq_client = 0, rq_time = 0, rq_origin = FromEffect\<rparr>,
         \<lparr>rq_address = ''a'', rq_client = 0, rq_time = 499, rq_origin = FromCaller\<rparr>]"
    by simp
  moreover from m t have "timers (refresh evm ?s)
      = [\<lparr>tm_id = 0, tm_address = Some ''a'', tm_client = 0, tm_due = 500\<rparr>]"
    by simp
  moreover from m f have "timed_fetches (tick evm (refresh evm ?s)) = [0, 500]"
    by simp
  moreover from m h3 a' c' n' r'
  have "requests (refresh ?S ?s')
      = [\<lparr>rq_address = ''11111111111111111111111111111111'', rq_client = 3, rq_time = 0,
           rq_origin = FromEffect\<rparr>,
         \<lparr>rq_address = ''11111111111111111111111111111111'', rq_client = 3, rq_time = 3,
           rq_origin = FromCaller\<rparr>]"
    by simp
  moreover from m t' have "timers (refresh ?S ?s') = [\<lparr>tm_id = 0,
      tm_address = Some ''11111111111111111111111111111111'', tm_client = 3, tm_due = 500\<rparr>]"
    by simp
  ultimately show ?thesis using h1 h2 t by simp
qed

subsection \<open>Failures\<close>

text \<open>
  Claim C3: when a network call of the Solana hook fails, \<^verbatim>\<open>getBalance\<close> logs the
  error, sets the balance to zero (the state of a mounted component then holds
  exactly zero) and returns normally; a result that \<^verbatim>\<open>BigInt\<close> refuses is handled
  the same way; and no promise the Solana hook's \<^verbatim>\<open>getBalance\<close> returned is ever
  rejected. When \<^verbatim>\<open>new PublicKey\<close> refuses the address, the call of \<^verbatim>\<open>getBalance\<close>
  makes no network call and does the same at once: the error logged, the balance
  zero, a normal return.
\<close>

theorem solana_fetch_failure:
  assumes "i \<in> set (pending s)"
  shows "balance (settle sol_settled i (Rejected e) s) = (if mounted s then Some 0 else balance s)
    \<and> console (settle sol_settled i (Rejected e) s) = console s @ [e]
    \<and> settled (settle sol_settled i (Rejected e) s) = settled s @ [(Some i, Returned)]
    \<and> balance (settle sol_settled i (Fulfilled x) s)
        = (if mounted s then Some (if of_int \<lfloor>x\<rfloor> = x then \<lfloor>x\<rfloor> else 0) else balance s)
    \<and> console (settle sol_settled i (Fulfilled x) s)
        = (if of_int \<lfloor>x\<rfloor> = x then console s else console s @ [RangeError])
    \<and> list_all (\<lambda>x. snd x = Returned) (settled (useSolanaBalance PublicKey ToString p t0 es))
    \<and> (truthy a \<and> PublicKey (the a) = Some e' \<longrightarrow>
          requests (getBalance (solana PublicKey ToString) a c origin h) = requests h
          \<and> pending (getBalance (solana PublicKey ToString) a c origin h) = pending h
          \<and> console (getBalance (solana PublicKey ToString) a c origin h) = console h @ [e']
          \<and> balance (getBalance (solana PublicKey ToString) a c origin h)
              = (if mounted h then Some 0 else balance h)
          \<and> settled (getBalance (solana PublicKey ToString) a c origin h)
              = settled h @ [(None, Returned)])"
proof -
  let ?S = "solana PublicKey ToString"
  have R: "snd (after_await ?S r) = Returned" for r
    by (simp add: variant_simps sol_settled_returns)
  have "list_all (\<lambda>x. snd x = Returned) (settled (useSolanaBalance PublicKey ToString p t0 es))"
    unfolding useSolanaBalance_def by (rule returned_run [OF R]) (rule returned_mount [OF R])
  moreover have "requests (getBalance ?S a c origin h) = requests h
      \<and> pending (getBalance ?S a c origin h) = pending h
      \<and> console (getBalance ?S a c origin h) = console h @ [e']
      \<and> balance (getBalance ?S a c origin h) = (if mounted h then Some 0 else balance h)
      \<and> settled (getBalance ?S a c origin h) = settled h @ [(None, Returned)]"
    if "truthy a" "PublicKey (the a) = Some e'"
    using getBalance_sol_refused [where PublicKey = PublicKey and ToString = ToString
        and a = a and e = e' and s = h and c = c and origin = origin, OF that]
    by simp
  ultimately show ?thesis
    using settle_sol_rejected(1,2,3) [OF assms, of e] settle_sol_fulfilled [OF assms, of x]
    by simp
qed

theorem solana_fetch_failure_witness:
  "0 \<in> set (pending (mount (solana [''a'' \<mapsto> Rejection ''Invalid public key input''] (\<lambda>x. []))
       \<lparr>p_address = Some ''11111111111111111111111111111111'', p_client = 0,
        p_poll = Some True\<rparr> 0))
    \<and> balance (settle sol_settled 0 (Rejected (Rejection ''timeout''))
         (mount (solana [''a'' \<mapsto> Rejection ''Invalid public key input''] (\<lambda>x. []))
            \<lparr>p_address = Some ''11111111111111111111111111111111'', p_client = 0,
             p_poll = Some True\<rparr> 0)) = Some 0
    \<and> console (settle sol_settled 0 (Rejected (Rejection ''timeout''))
         (mount (solana [''a'' \<mapsto> Rejection ''Invalid public key input''] (\<lambda>x. []))
            \<lparr>p_address = Some ''11111111111111111111111111111111'', p_client = 0,
             p_poll = Some True\<rparr> 0))
       = [Rejection ''timeout'']
    \<and> truthy (Some ''a'')
    \<and> [''a'' \<mapsto> Rejection ''Invalid public key input''] (the (Some ''a''))
       = Some (Rejection ''Invalid public key input'')
    \<and> requests (getBalance (solana [''a'' \<mapsto> Rejection ''Invalid public key input''] (\<lambda>x. []))
         (Some ''a'') 0 FromCaller
         (mount (solana [''a'' \<mapsto> Rejection ''Invalid public key input''] (\<lambda>x. []))
            \<lparr>p_address = Some ''a'', p_client = 0, p_poll = None\<rparr> 0)) = []
    \<and> balance (getBalance (solana [''a'' \<mapsto> Rejection ''Invalid public key input''] (\<lambda>x. []))
         (Some ''a'') 0 FromCaller
         (mount (solana [''a'' \<mapsto> Rejection ''Invalid public key input''] (\<lambda>x. []))
            \<lparr>p_address = Some ''a'', p_client = 0, p_poll = None\<rparr> 0)) = Some 0"
proof -
  let ?S = "solana [''a'' \<mapsto> Rejection ''Invalid public key input''] (\<lambda>x. [])"
  let ?s = "mount ?S \<lparr>p_address = Some ''11111111111111111111111111111111'', p_client = 0,
    p_poll = Some True\<rparr> 0"
  let ?h = "mount ?S \<lparr>p_address = Some ''a'', p_client = 0, p_poll = None\<rparr> 0"
  have f: "pending ?s = [0]" "mounted ?s" "console ?s = []" by code_simp+
  have g: "mounted ?h" "requests ?h = []" by code_simp+
  from f have h1: "0 \<in> set (pending ?s)" by simp
  have h2: "truthy (Some ''a'')" by (simp add: truthy_def)
  have h3: "[''a'' \<mapsto> Rejection ''Invalid public key input''] (the (Some ''a''))
      = Some (Rejection ''Invalid public key input'')" by simp
  from solana_fetch_failure [OF h1, where e = "Rejection ''timeout''" and h = ?h
      and a = "Some ''a''" and c = 0 and origin = FromCaller
      and PublicKey = "[''a'' \<mapsto> Rejection ''Invalid public key input'']"
      and ToString = "\<lambda>x. []" and e' = "Rejection ''Invalid public key input''"]
    f g h1 h2 h3
  show ?thesis by simp
qed

text \<open>
  Claim C4: when a network call of the EVM hook fails, nothing catches the rejection:
  the promise \<^verbatim>\<open>getBalance\<close> returned is rejected with the same reason, nothing is
  logged, and the balance and its formatted form are what they were.
\<close>

theorem evm_fetch_failure:
  assumes "i \<in> set (pending s)"
  shows "settled (settle evm_settled i (Rejected e) s) = settled s @ [(Some i, Threw e)]
    \<and> balance (settle evm_settled i (Rejected e) s) = balance s
    \<and> console (settle evm_settled i (Rejected e) s) = console s
    \<and> evm_formattedBalance (settle evm_settled i (Rejected e) s) = evm_formattedBalance s"
  using settle_evm_rejected(1,2,3) [OF assms, of e] by (simp add: evm_formattedBalance_def)

theorem evm_fetch_failure_witness:
  "0 \<in> set (pending (mount evm \<lparr>p_address = Some ''a'', p_client = 0, p_poll = Some True\<rparr> 0))
    \<and> settled (settle evm_settled 0 (Rejected (Rejection ''timeout''))
         (mount evm \<lparr>p_address = Some ''a'', p_client = 0, p_poll = Some True\<rparr> 0))
       = [(Some 0, Threw (Rejection ''timeout''))]
    \<and> balance (settle evm_settled 0 (Rejected (Rejection ''timeout''))
         (mount evm \<lparr>p_address = Some ''a'', p_client = 0, p_poll = Some True\<rparr> 0)) = None"
proof -
  let ?s = "mount evm \<lparr>p_address = Some ''a'', p_client = 0, p_poll = Some True\<rparr> 0"
  have f: "pending ?s = [0]" "settled ?s = []" "balance ?s = None" by code_simp+
  then have h: "0 \<in> set (pending ?s)" by simp
  from evm_fetch_failure [OF h, of "Rejection ''timeout''"] f h show ?thesis by simp
qed

subsection \<open>The formatted balance\<close>

text \<open>
  Claim C8: the formatted balance either hook returns is, in every state the hook can
  reach, the value of its formatter at the current balance (undefined for an undefined
  balance). So two states of a hook with the same balance return the same string,
  and while no call of \<^verbatim>\<open>getBalance\<close> completes, whatever else happens, the balance
  and the string stay what they were.
\<close>

theorem formatted_balance_pure:
  fixes es es1 es2 :: "int event list" and es' es1' es2' :: "rat event list"
    and p p' q q' :: props and t0 t0' t1 t1' :: nat
    and PublicKey :: "string \<rightharpoonup> reason" and ToString :: "rat \<Rightarrow> string"
  defines "s \<equiv> useEvmBalance p t0 es"
    and "s' \<equiv> useSolanaBalance PublicKey ToString p' t0' es'"
  shows "formattedBalance s = evm_formattedBalance s
    \<and> formattedBalance s' = sol_formattedBalance ToString s'
    \<and> (balance (useEvmBalance q t1 es2) = balance s \<longrightarrow>
         formattedBalance (useEvmBalance q t1 es2) = formattedBalance s)
    \<and> (balance (useSolanaBalance PublicKey ToString q' t1' es2') = balance s' \<longrightarrow>
         formattedBalance (useSolanaBalance PublicKey ToString q' t1' es2') = formattedBalance s')
    \<and> (settled (run evm es1 s) = settled s \<longrightarrow>
         balance (run evm es1 s) = balance s
         \<and> formattedBalance (run evm es1 s) = formattedBalance s)
    \<and> (settled (run (solana PublicKey ToString) es1' s') = settled s' \<longrightarrow>
         balance (run (solana PublicKey ToString) es1' s') = balance s'
         \<and> formattedBalance (run (solana PublicKey ToString) es1' s') = formattedBalance s')"
proof -
  let ?S = "solana PublicKey ToString"
  have reach: "memo_current (formatter K) (run K xs (mount K r t))"
    for K :: "'v variant" and xs r t
    using memo_current_mount by (rule memo_current_run)
  have m: "memo_current formatEther s"
    unfolding s_def useEvmBalance_def using reach [of evm] by (simp add: variant_simps)
  have m': "memo_current (\<lambda>b. formatSol ToString (Number b)) s'"
    unfolding s'_def useSolanaBalance_def using reach [of ?S] by (simp add: variant_simps)
  have n: "memo_current formatEther (useEvmBalance q t1 es2)"
    unfolding useEvmBalance_def using reach [of evm] by (simp add: variant_simps)
  have n': "memo_current (\<lambda>b. formatSol ToString (Number b))
      (useSolanaBalance PublicKey ToString q' t1' es2')"
    unfolding useSolanaBalance_def using reach [of ?S] by (simp add: variant_simps)
  have r: "memo_current formatEther (run evm es1 s)"
    using memo_current_run [of evm s es1] m by (simp add: variant_simps)
  have r': "memo_current (\<lambda>b. formatSol ToString (Number b)) (run ?S es1' s')"
    using memo_current_run [of ?S s' es1'] m' by (simp add: variant_simps)
  have "formattedBalance s = evm_formattedBalance s"
    using m by (simp add: memo_current_formatted evm_formattedBalance_def)
  moreover have "formattedBalance s' = sol_formattedBalance ToString s'"
    using m' by (simp add: memo_current_formatted sol_formattedBalance_def)
  moreover have "formattedBalance (useEvmBalance q t1 es2) = formattedBalance s"
    if "balance (useEvmBalance q t1 es2) = balance s"
    using m n that by (rule memo_current_same)
  moreover have "formattedBalance (useSolanaBalance PublicKey ToString q' t1' es2')
      = formattedBalance s'"
    if "balance (useSolanaBalance PublicKey ToString q' t1' es2') = balance s'"
    using m' n' that by (rule memo_current_same)
  moreover have "balance (run evm es1 s) = balance s
      \<and> formattedBalance (run evm es1 s) = formattedBalance s"
    if "settled (run evm es1 s) = settled s"
    using balance_between [OF that] memo_current_same [OF m r] by simp
  moreover have "balance (run ?S es1' s') = balance s'
      \<and> formattedBalance (run ?S es1' s') = formattedBalance s'"
    if "settled (run ?S es1' s') = settled s'"
    using balance_between [OF that] memo_current_same [OF m' r'] by simp
  ultimately show ?thesis by blast
qed

theorem formatted_balance_pure_witness:
  "formattedBalance (useEvmBalance \<lparr>p_address = Some ''a'', p_client = 0, p_poll = Some True\<rparr> 0
       [Tick, Settle 0 (Fulfilled 1500000000000000000)]) = Some ''1.5''
    \<and> formattedBalance (useSolanaBalance Map.empty (\<lambda>x. [])
         \<lparr>p_address = Some ''11111111111111111111111111111111'', p_client = 3,
          p_poll = Some True\<rparr> 0 [Tick, Settle 0 (Fulfilled 1500000000)]) = Some ''1.5''
    \<and> balance (useEvmBalance \<lparr>p_address = Some ''b'', p_client = 1, p_poll = None\<rparr> 7
         [Refresh, Settle 0 (Fulfilled 1500000000000000000), Unmount])
       = balance (useEvmBalance \<lparr>p_address = Some ''a'', p_client = 0, p_poll = Some True\<rparr> 0
           [Tick, Settle 0 (Fulfilled 1500000000000000000)])
    \<and> formattedBalance (useEvmBalance \<lparr>p_address = Some ''b'', p_client = 1, p_poll = None\<rparr> 7
         [Refresh, Settle 0 (Fulfilled 1500000000000000000), Unmount]) = Some ''1.5''
    \<and> settled (run (solana Map.empty (\<lambda>x. [])) [Tick, Refresh, Tick]
         (useSolanaBalance Map.empty (\<lambda>x. [])
            \<lparr>p_address = Some ''11111111111111111111111111111111'', p_client = 3,
             p_poll = Some True\<rparr> 0 [Tick, Settle 0 (Fulfilled 1500000000)]))
       = settled (useSolanaBalance Map.empty (\<lambda>x. [])
            \<lparr>p_address = Some ''11111111111111111111111111111111'', p_client = 3,
             p_poll = Some True\<rparr> 0 [Tick, Settle 0 (Fulfilled 1500000000)])
    \<and> formattedBalance (run (solana Map.empty (\<lambda>x. [])) [Tick, Refresh, Tick]
         (useSolanaBalance Map.empty (\<lambda>x. [])
            \<lparr>p_address = Some ''11111111111111111111111111111111'', p_client = 3,
             p_poll = Some True\<rparr> 0 [Tick, Settle 0 (Fulfilled 1500000000)])) = Some ''1.5''"
proof -
  let ?p = "\<lparr>p_address = Some ''a'', p_client = 0, p_poll = Some True\<rparr>"
  let ?q = "\<lparr>p_address = Some ''b'', p_client = 1, p_poll = None\<rparr>"
  let ?r = "\<lparr>p_address = Some ''11111111111111111111111111111111'', p_client = 3,
    p_poll = Some True\<rparr>"
  let ?S = "solana Map.empty (\<lambda>x. [])"
  let ?s = "useEvmBalance ?p 0 [Tick, Settle 0 (Fulfilled 1500000000000000000)]"
  let ?s' = "useSolanaBalance Map.empty (\<lambda>x. []) ?r 0 [Tick, Settle 0 (Fulfilled 1500000000)]"
  let ?u = "useEvmBalance ?q 7 [Refresh, Settle 0 (Fulfilled 1500000000000000000), Unmount]"
  have b: "balance ?s = Some 1500000000000000000" by code_simp
  have b': "balance ?s' = Some 1500000000" by code_simp
  have e: "formatEther 1500000000000000000 = ''1.5''" by code_simp
  have e': "formatSol (\<lambda>x. []) (Number 1500000000) = ''1.5''" by code_simp
  have h1: "balance ?u = balance ?s" by code_simp
  have h2: "settled (run ?S [Tick, Refresh, Tick] ?s') = settled ?s'" by code_simp
  note t = formatted_balance_pure [where p = ?p and ?t0.0 = 0
      and es = "[Tick, Settle 0 (Fulfilled 1500000000000000000)]"
      and PublicKey = Map.empty and ToString = "\<lambda>x. []" and p' = ?r and ?t0'.0 = 0
      and es' = "[Tick, Settle 0 (Fulfilled 1500000000)]"
      and q = ?q and ?t1.0 = 7
      and ?es2.0 = "[Refresh, Settle 0 (Fulfilled 1500000000000000000), Unmount]"
      and ?es1'.0 = "[Tick, Refresh, Tick]"]
  from t b e have f: "formattedBalance ?s = Some ''1.5''"
    by (simp add: evm_formattedBalance_def)
  from t b' e' have f': "formattedBalance ?s' = Some ''1.5''"
    by (simp add: sol_formattedBalance_def)
  from t h1 f have "formattedBalance ?u = Some ''1.5''" by simp
  moreover from t h2 f' have "formattedBalance (run ?S [Tick, Refresh, Tick] ?s') = Some ''1.5''"
    by simp
  ultimately show ?thesis using f f' h1 h2 by simp
qed

subsection \<open>Teardown\<close>

text \<open>
  Claim C9, as the code has it: in every state a hook can reach there is at most one
  interval, and none unless the component is mounted with \<open>poll\<close> set; unmounting and
  a render that turns \<open>poll\<close> off leave no interval. Teardown cancels no network
  call. A call that settles after the unmount changes no balance. A call that
  settles after \<open>poll\<close> was turned off, in a component that is still mounted, sets the
  balance all the same, in either hook.
\<close>

theorem teardown_clears_interval:
  fixes K :: "'v variant" and k :: "'w response \<Rightarrow> action list \<times> outcome"
    and es :: "'v event list" and p :: props and t0 :: nat
    and PublicKey :: "string \<rightharpoonup> reason" and ToString :: "rat \<Rightarrow> string"
  defines "s \<equiv> run K es (mount K p t0)"
  shows "timers (unmount s) = []
    \<and> (\<not> poll_of q \<longrightarrow> timers (render K q s) = [])
    \<and> length (timers s) \<le> 1
    \<and> (\<not> (mounted s \<and> poll s) \<longrightarrow> timers s = [])
    \<and> pending (unmount s) = pending s
    \<and> set (pending s) \<subseteq> set (pending (render K q s))
    \<and> balance (settle k i r (unmount s)) = balance s
    \<and> (j \<in> set (pending h) \<and> mounted h
        \<longrightarrow> balance (settle evm_settled j (Fulfilled v) (render evm q h)) = Some v)
    \<and> (j' \<in> set (pending h') \<and> mounted h'
        \<longrightarrow> balance (settle sol_settled j' (Fulfilled x) (render (solana PublicKey ToString) q h'))
            = Some (if of_int \<lfloor>x\<rfloor> = x then \<lfloor>x\<rfloor> else 0))"
proof -
  let ?S = "solana PublicKey ToString"
  have sch: "scheduled s"
    unfolding s_def using scheduled_mount by (rule scheduled_run)
  have "balance (settle k i r (unmount s)) = balance (unmount s)"
    by (rule settle_unmounted) (simp add: unmount_frame)
  moreover have "balance (settle evm_settled j (Fulfilled v) (render evm q h)) = Some v"
    if "j \<in> set (pending h)" "mounted h"
  proof (rule settle_evm_fulfilled)
    from that(1) render_pending [of h evm q] show "j \<in> set (pending (render evm q h))" by auto
    from that(2) show "mounted (render evm q h)" by (simp add: render_frame)
  qed
  moreover have "balance (settle sol_settled j' (Fulfilled x) (render ?S q h'))
      = Some (if of_int \<lfloor>x\<rfloor> = x then \<lfloor>x\<rfloor> else 0)"
    if "j' \<in> set (pending h')" "mounted h'"
  proof -
    from that(1) render_pending [of h' ?S q] have "j' \<in> set (pending (render ?S q h'))" by auto
    from settle_sol_fulfilled(1) [OF this, of x] that(2) show ?thesis
      by (simp add: render_frame)
  qed
  ultimately show ?thesis
    using scheduled_unmount(2) [OF sch] render_poll_off [OF sch, of q K]
      scheduled_timers [OF sch] render_pending [of s K q]
    by (simp add: unmount_frame)
qed

theorem teardown_clears_interval_witness:
  "\<not> poll_of \<lparr>p_address = Some ''a'', p_client = 0, p_poll = Some False\<rparr>
    \<and> timers (run evm [Tick]
            (mount evm \<lparr>p_address = Some ''a'', p_client = 0, p_poll = Some True\<rparr> 0))
       = [\<lparr>tm_id = 0, tm_address = Some ''a'', tm_client = 0, tm_due = 500\<rparr>]
    \<and> timers (render evm \<lparr>p_address = Some ''a'', p_client = 0, p_poll = Some False\<rparr>
         (run evm [Tick]
            (mount evm \<lparr>p_address = Some ''a'', p_client = 0, p_poll = Some True\<rparr> 0))) = []
    \<and> timers (unmount (run evm [Tick]
            (mount evm \<lparr>p_address = Some ''a'', p_client = 0, p_poll = Some True\<rparr> 0))) = []
    \<and> \<not> mounted (run evm [Tick, Unmount]
            (mount evm \<lparr>p_address = Some ''a'', p_client = 0, p_poll = Some True\<rparr> 0))
    \<and> timers (run evm [Tick, Unmount]
            (mount evm \<lparr>p_address = Some ''a'', p_client = 0, p_poll = Some True\<rparr> 0)) = []
    \<and> 0 \<in> set (pending (mount evm \<lparr>p_address = Some ''a'', p_client = 0, p_poll = Some True\<rparr> 0))
    \<and> mounted (mount evm \<lparr>p_address = Some ''a'', p_client = 0, p_poll = Some True\<rparr> 0)
    \<and> balance (settle evm_settled 0 (Fulfilled 5)
         (render evm \<lparr>p_address = Some ''a'', p_client = 0, p_poll = Some False\<rparr>
            (mount evm \<lparr>p_address = Some ''a'', p_client = 0, p_poll = Some True\<rparr> 0))) = Some 5
    \<and> 0 \<in> set (pending (mount (solana Map.empty (\<lambda>x. []))
         \<lparr>p_address = Some ''11111111111111111111111111111111'', p_client = 3,
          p_poll = Some True\<rparr> 0))
    \<and> balance (settle sol_settled 0 (Fulfilled 5)
         (render (solana Map.empty (\<lambda>x. []))
            \<lparr>p_address = Some ''a'', p_client = 0, p_poll = Some False\<rparr>
            (mount (solana Map.empty (\<lambda>x. []))
               \<lparr>p_address = Some ''11111111111111111111111111111111'', p_client = 3,
                p_poll = Some True\<rparr> 0))) = Some 5"
proof -
  let ?p = "\<lparr>p_address = Some ''a'', p_client = 0, p_poll = Some True\<rparr>"
  let ?q = "\<lparr>p_address = Some ''a'', p_client = 0, p_poll = Some False\<rparr>"
  let ?s = "run evm [Tick] (mount evm ?p 0)"
  let ?u = "run evm [Tick, Unmount] (mount evm ?p 0)"
  let ?h = "mount (solana Map.empty (\<lambda>x. []))
    \<lparr>p_address = Some ''11111111111111111111111111111111'', p_client = 3, p_poll = Some True\<rparr> 0"
  have h: "\<not> poll_of ?q" by (simp add: poll_of_def)
  have t: "timers ?s = [\<lparr>tm_id = 0, tm_address = Some ''a'', tm_client = 0, tm_due = 500\<rparr>]"
    by code_simp
  have u: "\<not> mounted ?u" by code_simp
  have m1: "0 \<in> set (pending (mount evm ?p 0))" by code_simp
  have m2: "mounted (mount evm ?p 0)" by code_simp
  have m3: "0 \<in> set (pending ?h)" by code_simp
  have m4: "mounted ?h" by code_simp
  note a = teardown_clears_interval [where q = ?q and K = evm and es = "[Tick]"
      and p = ?p and ?t0.0 = 0 and j = 0 and h = "mount evm ?p 0" and v = 5 and x = 5
      and j' = 0 and h' = ?h and PublicKey = Map.empty and ToString = "\<lambda>x. []"
      and k = evm_settled and i = 0 and r = "Fulfilled 0"]
  note b = teardown_clears_interval [where K = evm and es = "[Tick, Unmount]"
      and p = ?p and ?t0.0 = 0 and k = evm_settled and i = 0 and r = "Fulfilled 0"]
  from a h m1 m2 m3 m4 have "timers (render evm ?q ?s) = []" and "timers (unmount ?s) = []"
    and "balance (settle evm_settled 0 (Fulfilled 5) (render evm ?q (mount evm ?p 0))) = Some 5"
    and "balance (settle sol_settled 0 (Fulfilled 5)
      (render (solana Map.empty (\<lambda>x. [])) ?q ?h)) = Some 5"
    by simp_all
  moreover from b u have "timers ?u = []" by simp
  ultimately show ?thesis using h t u m1 m2 m3 by blast
qed

text \<open>
  Claim C9 as stated fails in its second part: with \<open>poll\<close> turned off while the first
  call is in flight, the interval is gone and the call, once it settles, still sets
  the balance.
\<close>

theorem late_update_counterexample:
  "timers (useEvmBalance \<lparr>p_address = Some ''a'', p_client = 0, p_poll = Some True\<rparr> 0
       [Render \<lparr>p_address = Some ''a'', p_client = 0, p_poll = Some False\<rparr>]) = []
   \<and> balance (useEvmBalance \<lparr>p_address = Some ''a'', p_client = 0, p_poll = Some True\<rparr> 0
       [Render \<lparr>p_address = Some ''a'', p_client = 0, p_poll = Some False\<rparr>]) = None
   \<and> balance (useEvmBalance \<lparr>p_address = Some ''a'', p_client = 0, p_poll = Some True\<rparr> 0
       [Render \<lparr>p_address = Some ''a'', p_client = 0, p_poll = Some False\<rparr>,
        Settle 0 (Fulfilled 5)]) = Some 5"
  by code_simp

subsection \<open>The screen\<close>

text \<open>
  Claim C10: the screen creates its Solana mainnet hook without the \<open>poll\<close> argument,
  so \<open>poll\<close> is false for it, and whatever happens on the screen that hook has no
  interval and makes no call from its effect or from an interval. Until the
  \<^verbatim>\<open>onSuccess\<close> of the Solana funding widget is called, it has made no network call
  at all, and its balance and formatted balance are undefined. When the widget is on
  the screen, its \<^verbatim>\<open>onSuccess\<close> makes the hook's first network call if
  \<^verbatim>\<open>new PublicKey\<close> accepts the address; if not, it makes no call and sets the
  balance to zero.
\<close>

theorem mainnet_poller_dormant:
  fixes signedIn :: bool and ea sa :: "string option" and t0 :: nat
    and es :: "screen_event list"
    and PublicKey :: "string \<rightharpoonup> reason" and ToString :: "rat \<Rightarrow> string"
  defines "s \<equiv> run_screen PublicKey ToString es
    (SignedInScreen PublicKey ToString signedIn ea sa t0)"
  shows "p_poll (mainnet_props sa) = None
    \<and> \<not> poll (solana_mainnet s)
    \<and> timers (solana_mainnet s) = []
    \<and> timed_fetches (solana_mainnet s) = []
    \<and> (OnSuccess FundWalletSolana \<notin> set es \<longrightarrow>
         requests (solana_mainnet s) = []
         \<and> balance (solana_mainnet s) = None
         \<and> sol_formattedBalance ToString (solana_mainnet s) = None
         \<and> formattedBalance (solana_mainnet s) = None
         \<and> (rendered s FundWalletSolana \<and> PublicKey (the (solanaAddress s)) = None \<longrightarrow>
              requests (solana_mainnet
                  (screen_step PublicKey ToString s (OnSuccess FundWalletSolana)))
                = [\<lparr>rq_address = the (solanaAddress s), rq_client = solanaMainnetConnection,
                    rq_time = now (solana_mainnet s), rq_origin = FromCaller\<rparr>])
         \<and> (rendered s FundWalletSolana \<and> PublicKey (the (solanaAddress s)) = Some e \<longrightarrow>
              requests (solana_mainnet
                  (screen_step PublicKey ToString s (OnSuccess FundWalletSolana))) = []
              \<and> balance (solana_mainnet
                  (screen_step PublicKey ToString s (OnSuccess FundWalletSolana))) = Some 0))"
proof -
  have "unpolled (solana_mainnet s)"
    unfolding s_def by (rule run_screen_unpolled) (simp add: SignedInScreen_def unpolled_mount)
  then have always: "\<not> poll (solana_mainnet s)" "timers (solana_mainnet s) = []"
    "timed_fetches (solana_mainnet s) = []"
    by (simp_all add: unpolled_def)
  have before: "requests (solana_mainnet s) = [] \<and> balance (solana_mainnet s) = None
      \<and> sol_formattedBalance ToString (solana_mainnet s) = None
      \<and> formattedBalance (solana_mainnet s) = None
      \<and> (rendered s FundWalletSolana \<and> PublicKey (the (solanaAddress s)) = None \<longrightarrow>
          requests (solana_mainnet (screen_step PublicKey ToString s (OnSuccess FundWalletSolana)))
            = [\<lparr>rq_address = the (solanaAddress s), rq_client = solanaMainnetConnection,
                rq_time = now (solana_mainnet s), rq_origin = FromCaller\<rparr>])
      \<and> (rendered s FundWalletSolana \<and> PublicKey (the (solanaAddress s)) = Some e \<longrightarrow>
          requests (solana_mainnet
              (screen_step PublicKey ToString s (OnSuccess FundWalletSolana))) = []
          \<and> balance (solana_mainnet
              (screen_step PublicKey ToString s (OnSuccess FundWalletSolana))) = Some 0)"
    if "OnSuccess FundWalletSolana \<notin> set es"
  proof -
    have inv: "dormant (solana_mainnet s)" "in_sync s"
      unfolding s_def
      using run_screen_mainnet [OF SignedInScreen_mainnet that] by simp_all
    from inv(1) have d: "requests (solana_mainnet s) = []" "balance (solana_mainnet s) = None"
      "formattedBalance (solana_mainnet s) = None"
      by (simp_all add: dormant_def formattedBalance_def)
    from d(2) have "sol_formattedBalance ToString (solana_mainnet s) = None"
      by (simp add: sol_formattedBalance_def)
    with d onSuccess_mainnet [OF inv, of PublicKey ToString]
      onSuccess_mainnet_refused(1,2) [OF inv, of PublicKey e ToString]
    show ?thesis by blast
  qed
  have "p_poll (mainnet_props sa) = None" by (simp add: mainnet_props_def)
  with always before show ?thesis by blast
qed

theorem mainnet_poller_dormant_witness:
  "OnSuccess FundWalletSolana \<notin> set [Elapse, OnSuccess SolanaTransaction, Elapse]
    \<and> rendered (run_screen Map.empty (\<lambda>x. []) [Elapse, OnSuccess SolanaTransaction, Elapse]
         (SignedInScreen Map.empty (\<lambda>x. []) True (Some ''e'')
            (Some ''11111111111111111111111111111111'') 0)) FundWalletSolana
    \<and> timers (solana_mainnet
         (run_screen Map.empty (\<lambda>x. []) [Elapse, OnSuccess SolanaTransaction, Elapse]
            (SignedInScreen Map.empty (\<lambda>x. []) True (Some ''e'')
               (Some ''11111111111111111111111111111111'') 0))) = []
    \<and> balance (solana_mainnet
         (run_screen Map.empty (\<lambda>x. []) [Elapse, OnSuccess SolanaTransaction, Elapse]
            (SignedInScreen Map.empty (\<lambda>x. []) True (Some ''e'')
               (Some ''11111111111111111111111111111111'') 0))) = None
    \<and> requests (solana_mainnet (screen_step Map.empty (\<lambda>x. [])
         (run_screen Map.empty (\<lambda>x. []) [Elapse, OnSuccess SolanaTransaction, Elapse]
            (SignedInScreen Map.empty (\<lambda>x. []) True (Some ''e'')
               (Some ''11111111111111111111111111111111'') 0))
         (OnSuccess FundWalletSolana)))
       = [\<lparr>rq_address = ''11111111111111111111111111111111'',
           rq_client = solanaMainnetConnection, rq_time = 2, rq_origin = FromCaller\<rparr>]"
proof -
  let ?es = "[Elapse, OnSuccess SolanaTransaction, Elapse]"
  let ?s = "run_screen Map.empty (\<lambda>x. []) ?es
    (SignedInScreen Map.empty (\<lambda>x. []) True (Some ''e'')
      (Some ''11111111111111111111111111111111'') 0)"
  have h: "OnSuccess FundWalletSolana \<notin> set ?es" by simp
  have f: "mounted (solana_mainnet ?s)"
    "solanaAddress ?s = Some ''11111111111111111111111111111111''" "isSignedIn ?s"
    "now (solana_mainnet ?s) = 2"
    by code_simp+
  then have r: "rendered ?s FundWalletSolana" by (simp add: truthy_def)
  have k: "Map.empty (the (solanaAddress ?s)) = (None :: reason option)" by simp
  from mainnet_poller_dormant [where es = ?es and signedIn = True and ea = "Some ''e''"
      and sa = "Some ''11111111111111111111111111111111''" and ?t0.0 = 0
      and PublicKey = Map.empty and ToString = "\<lambda>x. []"] r f h k
  show ?thesis by simp
qed

end
